theory Spec2Isabelle
  imports Main "HOL-Library.Multiset"
begin

section \<open>Python values\<close>

text \<open>
  A Python \<open>str\<close> is a sequence of Unicode code points, so it is modelled as a list of
  natural numbers. \<open>str\<close> turns an ASCII literal into such a list.
\<close>

type_synonym pystr = "nat list"

definition str :: "string \<Rightarrow> pystr" where
  "str s = map of_char s"

text \<open>\<open>str(n)\<close> and the \<open>{n}\<close> of an f-string for an integer: decimal digits.\<close>

fun show_nat :: "nat \<Rightarrow> pystr" where
  "show_nat n = (if n < 10 then [48 + n] else show_nat (n div 10) @ [48 + n mod 10])"

declare show_nat.simps [simp del]

definition show_int :: "int \<Rightarrow> pystr" where
  "show_int i = (if i < 0 then 45 # show_nat (nat (- i)) else show_nat (nat i))"

text \<open>\<open>sep.join(xs)\<close>.\<close>

fun join :: "pystr \<Rightarrow> pystr list \<Rightarrow> pystr" where
  "join sep [] = []"
| "join sep [x] = x"
| "join sep (x # y # ys) = x @ sep @ join sep (y # ys)"

text \<open>\<open>sub in s\<close> for two strings: \<open>sub\<close> occurs in \<open>s\<close> as a substring.\<close>

fun starts_with :: "pystr \<Rightarrow> pystr \<Rightarrow> bool" where
  "starts_with [] s = True"
| "starts_with (x # xs) [] = False"
| "starts_with (x # xs) (c # cs) = (x = c \<and> starts_with xs cs)"

fun str_contains :: "pystr \<Rightarrow> pystr \<Rightarrow> bool" where
  "str_contains sub [] = (sub = [])"
| "str_contains sub (c # cs) = (starts_with sub (c # cs) \<or> str_contains sub cs)"

text \<open>
  A Python \<open>dict\<close> keeps its keys in insertion order: an association list whose keys are
  distinct. A Python \<open>set\<close> that is only tested for membership is a HOL set; one that is
  enumerated (\<open>list(v)\<close>, \<open>len(v)\<close>) is a duplicate-free list. Python leaves the
  enumeration order of a set open; the model enumerates in insertion order.
\<close>

type_synonym ('k, 'v) dict = "('k \<times> 'v) list"

definition keys :: "('k, 'v) dict \<Rightarrow> 'k list" where
  "keys d = map fst d"

text \<open>\<open>d.get(k, default)\<close>.\<close>

definition dict_get :: "('k, 'v) dict \<Rightarrow> 'k \<Rightarrow> 'v \<Rightarrow> 'v" where
  "dict_get d k dflt = (case map_of d k of None \<Rightarrow> dflt | Some v \<Rightarrow> v)"

text \<open>\<open>s.add(x)\<close> on a set.\<close>

definition set_add :: "'a \<Rightarrow> 'a list \<Rightarrow> 'a list" where
  "set_add x xs = (if x \<in> set xs then xs else xs @ [x])"

text \<open>\<open>d[k].add(v)\<close> on a \<open>defaultdict(set)\<close>: a missing key is created with the empty set.\<close>

fun dd_add :: "'k \<Rightarrow> 'v \<Rightarrow> ('k, 'v list) dict \<Rightarrow> ('k, 'v list) dict" where
  "dd_add k v [] = [(k, [v])]"
| "dd_add k v ((k', vs) # d) =
     (if k' = k then (k', set_add v vs) # d else (k', vs) # dd_add k v d)"

text \<open>Truth value of what \<open>os.getenv\<close> returns: \<open>None\<close> and the empty string are false.\<close>

definition truthy :: "pystr option \<Rightarrow> bool" where
  "truthy v = (case v of None \<Rightarrow> False | Some s \<Rightarrow> s \<noteq> [])"

text \<open>
  The outcome of one HTTP request as the scripts see it: \<open>requests\<close> raises a
  \<open>RequestException\<close> (connection failure, error status) with a message, or a response
  object is returned.
\<close>

datatype 'a response = RequestException pystr | Response 'a

text \<open>
  The exceptions other than \<open>RequestException\<close> that reading an answer can raise, and what
  picking the payload out of \<open>response.json()\<close> gives: the exception raised (\<open>KeyError\<close>
  for an object without the key, \<open>TypeError\<close> for a body that is no object), or the payload.
\<close>

datatype pyexc = KeyError | TypeError | ValueError | AttributeError | IndexError

datatype 'a payload = Undecodable pyexc | Payload 'a


section \<open>cardinality\_analysis\_script.py\<close>

subsection \<open>The two patterns\<close>

text \<open>
  \<open>metric_pattern = ([a-zA-Z_:][a-zA-Z0-9_:]*)\<close> and
  \<open>label_pattern = ([a-zA-Z_][a-zA-Z0-9_]*)\s*=\<close>. The character classes, on code points;
  \<open>\s\<close> on a \<open>str\<close> pattern is Unicode white space.
\<close>

definition is_metric_start :: "nat \<Rightarrow> bool" where
  "is_metric_start c \<longleftrightarrow>
     (97 \<le> c \<and> c \<le> 122) \<or> (65 \<le> c \<and> c \<le> 90) \<or> c = 95 \<or> c = 58"

definition is_metric_cont :: "nat \<Rightarrow> bool" where
  "is_metric_cont c \<longleftrightarrow>
     (97 \<le> c \<and> c \<le> 122) \<or> (65 \<le> c \<and> c \<le> 90) \<or> (48 \<le> c \<and> c \<le> 57) \<or> c = 95 \<or> c = 58"

definition is_label_start :: "nat \<Rightarrow> bool" where
  "is_label_start c \<longleftrightarrow> (97 \<le> c \<and> c \<le> 122) \<or> (65 \<le> c \<and> c \<le> 90) \<or> c = 95"

definition is_label_cont :: "nat \<Rightarrow> bool" where
  "is_label_cont c \<longleftrightarrow>
     (97 \<le> c \<and> c \<le> 122) \<or> (65 \<le> c \<and> c \<le> 90) \<or> (48 \<le> c \<and> c \<le> 57) \<or> c = 95"

definition is_space :: "nat \<Rightarrow> bool" where
  "is_space c \<longleftrightarrow>
     (9 \<le> c \<and> c \<le> 13) \<or> (28 \<le> c \<and> c \<le> 32) \<or> c = 133 \<or> c = 160 \<or> c = 5760 \<or>
     (8192 \<le> c \<and> c \<le> 8202) \<or> c = 8232 \<or> c = 8233 \<or> c = 8239 \<or> c = 8287 \<or> c = 12288"

text \<open>
  \<open>metric_pattern.findall(line)\<close>: the scan goes left to right; at a position where the
  pattern matches it takes the longest match (the star is greedy), reports it, and goes on
  behind it; elsewhere it moves one position on.
\<close>

function metric_findall :: "pystr \<Rightarrow> pystr list" where
  "metric_findall [] = []"
| "metric_findall (c # cs) =
     (if is_metric_start c
      then (c # takeWhile is_metric_cont cs) # metric_findall (dropWhile is_metric_cont cs)
      else metric_findall cs)"
  by pat_completeness auto
termination
  by (relation "measure length") (auto simp: length_dropWhile_le less_Suc_eq_le)

text \<open>
  \<open>label_pattern.findall(line)\<close>: at a position where an identifier starts, the identifier
  is taken as far as it goes, then the white space, and the next character must be \<open>=\<close>
  (code point 61). Giving back characters of the identifier or of the white space cannot
  make the match succeed, since the character that follows is then an identifier or a
  white-space character and not \<open>=\<close>; so a failed attempt moves one position on. The
  reported value is the group, the identifier.
\<close>

function label_findall :: "pystr \<Rightarrow> pystr list" where
  "label_findall [] = []"
| "label_findall (c # cs) =
     (if is_label_start c then
        (case dropWhile is_space (dropWhile is_label_cont cs) of
           [] \<Rightarrow> label_findall cs
         | e # rest \<Rightarrow>
             if e = 61 then (c # takeWhile is_label_cont cs) # label_findall rest
             else label_findall cs)
      else label_findall cs)"
  by pat_completeness auto

termination
proof (relation "measure length")
  fix c cs e rest
  assume a: "dropWhile is_space (dropWhile is_label_cont cs) = e # rest"
  have "length (dropWhile is_space (dropWhile is_label_cont cs))
          \<le> length (dropWhile is_label_cont cs)"
    by (rule length_dropWhile_le)
  also have "\<dots> \<le> length cs" by (rule length_dropWhile_le)
  finally have "length (e # rest) \<le> length cs" using a by simp
  then show "(rest, c # cs) \<in> measure length" by simp
qed auto

subsection \<open>The world the script runs in\<close>

text \<open>
  What the script reads: the environment variable, the answers of Prometheus (to the
  health probe, to the top-k query and to the series request of each metric), and the files
  on disk.

  The payload of the top-k answer is taken as decoded into name and count; it is
  \<open>Undecodable\<close> when one of the subscripts or the \<open>int\<close> of lines 48 to 52 raises.

  A series is the \<open>dict\<close> from label name to value that Prometheus returns; names and
  values are strings. The \<open>data\<close> of a series answer is a list of series
  (\<open>Observations\<close>); or a value that has no length (\<open>null\<close>, a number, a boolean:
  \<open>Unsized\<close>); or a value of some length on which the loop of \<open>analyze_labels\<close> raises an
  exception with some message (\<open>Unreadable\<close>: a list with an element that is no dict, for
  one). The payload is \<open>Undecodable\<close> when \<open>response.json()["data"]\<close> raises: the answer
  has no \<open>data\<close> or is no object.

  For a path, \<open>None\<close> says that the path does not exist; otherwise the file gives the lines
  that iterating it yields and, when opening or reading it raises an exception, the message
  of that exception (the lines are then the ones read before it).
\<close>

type_synonym series = "(pystr, pystr) dict"

datatype series_data = Observations "series list" | Unsized | Unreadable nat pystr

record top_metric =
  item_metric :: pystr
  item_series_count :: int

record world =
  PROMETHEUS_URL :: "pystr option"
  health :: "unit response"
  top_response :: "top_metric list payload response"
  series_response :: "pystr \<Rightarrow> series_data payload response"
  files :: "pystr \<Rightarrow> (pystr list \<times> pystr option) option"

definition QUERIES_PATHS :: "pystr list" where
  "QUERIES_PATHS =
     [str ''results/grafana_promql_queries.txt'',
      str ''results/grafana_specific_metric.txt'',
      str ''results/alertmanager_promql_expressions.txt'']"

definition METRICS_SUMMARY_PATH :: pystr where
  "METRICS_SUMMARY_PATH = str ''results/metric_cardinality_summary.json''"

definition NUMBER_TOP_METRICS :: int where
  "NUMBER_TOP_METRICS = 10"

text \<open>
  Every function returns what it prints (one entry for each call of \<open>print\<close>) next to its
  result. Where an exception can leave the function, the result is a sum: \<open>Inl\<close> the
  exception, \<open>Inr\<close> the value returned.
\<close>

definition is_prometheus_healthy :: "world \<Rightarrow> pystr list \<times> bool" where
  "is_prometheus_healthy w =
     (case health w of
        Response u \<Rightarrow> ([], True)
      | RequestException e \<Rightarrow> ([str ''Error connecting to Prometheus: '' @ e], False))"

text \<open>Only \<open>requests.RequestException\<close> is caught (line 53); anything else leaves the function.\<close>

definition fetch_top_cardinality_metrics ::
    "world \<Rightarrow> int \<Rightarrow> pystr list \<times> (pyexc + top_metric list)" where
  "fetch_top_cardinality_metrics w limit =
     (let out = [str ''Fetching top '' @ show_int limit @
                 str '' high-cardinality metrics via PromQL...'']
      in case top_response w of
           Response (Payload results) \<Rightarrow> (out, Inr results)
         | Response (Undecodable x) \<Rightarrow> (out, Inl x)
         | RequestException e \<Rightarrow> (out @ [str ''Error fetching top metrics: '' @ e], Inr []))"

text \<open>
  Line 65 returns \<open>response.json()["data"]\<close>, whatever it is; only
  \<open>requests.RequestException\<close> is caught (line 66).
\<close>

definition fetch_series_for_metric ::
    "world \<Rightarrow> pystr \<Rightarrow> pystr list \<times> (pyexc + series_data)" where
  "fetch_series_for_metric w metric_name =
     (case series_response w metric_name of
        Response (Payload d) \<Rightarrow> ([], Inr d)
      | Response (Undecodable x) \<Rightarrow> ([], Inl x)
      | RequestException e \<Rightarrow>
          ([str ''Warning: Could not fetch series for metric '' @ metric_name @ str '': '' @ e],
           Inr (Observations [])))"

subsection \<open>analyze\_labels\<close>

definition count_series :: "series \<Rightarrow> (pystr, pystr list) dict \<Rightarrow> (pystr, pystr list) dict" where
  "count_series ser label_counter =
     fold (\<lambda>(label, val) lc. if label \<noteq> str ''__name__'' then dd_add label val lc else lc)
       ser label_counter"

definition label_counter_of :: "series list \<Rightarrow> (pystr, pystr list) dict" where
  "label_counter_of series_data = fold count_series series_data []"

definition analyze_labels :: "series list \<Rightarrow> pystr list \<times> (pystr, nat) dict" where
  "analyze_labels series_data =
     (let label_counter = label_counter_of series_data
      in ([str ''Analyzing labels for '' @ show_nat (length series_data) @ str '' series...'',
           str ''Found '' @ show_nat (length label_counter) @ str '' unique labels.''],
          map (\<lambda>(label, vals). (label, length vals)) label_counter))"

text \<open>
  \<open>analyze_labels\<close> above is the function on a list of series. Called on the \<open>data\<close> of
  an answer, it first evaluates \<open>len(series_data)\<close> for its first message (line 73), which
  stands before the \<open>try\<close>: on a value without a length the \<open>TypeError\<close> leaves the
  function and nothing is printed. An exception in the loop is caught (line 82): the error is
  printed and the empty dict returned.
\<close>

definition analyze_labels_call :: "series_data \<Rightarrow> pystr list \<times> (pyexc + (pystr, nat) dict)" where
  "analyze_labels_call d =
     (case d of
        Observations series_data \<Rightarrow>
          (fst (analyze_labels series_data), Inr (snd (analyze_labels series_data)))
      | Unsized \<Rightarrow> ([], Inl TypeError)
      | Unreadable n e \<Rightarrow>
          ([str ''Analyzing labels for '' @ show_nat n @ str '' series...'',
            str ''Error analyzing labels: '' @ e],
           Inr []))"

subsection \<open>extract\_metrics\_and\_labels\_from\_queries\<close>

definition source_of :: "pystr \<Rightarrow> pystr" where
  "source_of path =
     (if str_contains (str ''grafana_promql_queries.txt'') path then str ''grafana''
      else if str_contains (str ''alertmanager_promql_expressions.txt'') path
        then str ''alertmanager''
      else if str_contains (str ''specific_metric.txt'') path then str ''specific''
      else [])"

text \<open>The state of the loops: what was printed, \<open>used_metrics\<close> and \<open>used_labels\<close>.\<close>

type_synonym usage = "pystr list \<times> (pystr, pystr list) dict \<times> pystr set"

definition scan_line :: "pystr \<Rightarrow> pystr \<Rightarrow> usage \<Rightarrow> usage" where
  "scan_line source line = (\<lambda>(out, used_metrics, used_labels).
     (out,
      fold (\<lambda>m um. dd_add m source um) (metric_findall line) used_metrics,
      used_labels \<union> set (label_findall line)))"

definition scan_path :: "world \<Rightarrow> pystr \<Rightarrow> usage \<Rightarrow> usage" where
  "scan_path w path = (\<lambda>(out, used_metrics, used_labels).
     (case files w path of
        None \<Rightarrow>
          (out @ [[8218, 246, 8224, 212, 8719, 232] @ str '' Skipping missing query file: '' @ path],
           used_metrics, used_labels)
      | Some (lines, failure) \<Rightarrow>
          (let (out', used_metrics', used_labels') =
                 fold (scan_line (source_of path)) lines (out, used_metrics, used_labels)
           in case failure of
                None \<Rightarrow> (out', used_metrics', used_labels')
              | Some e \<Rightarrow>
                  (out' @ [[8218, 249, 229] @ str '' Error reading '' @ path @ str '': '' @ e],
                   used_metrics', used_labels'))))"

definition extract_metrics_and_labels_from_queries ::
    "world \<Rightarrow> pystr list \<Rightarrow> pystr list \<times> (pystr, pystr list) dict \<times> pystr set" where
  "extract_metrics_and_labels_from_queries w paths = fold (scan_path w) paths ([], [], {})"

subsection \<open>main\<close>

record label_usage =
  cardinality :: nat
  label_in_use :: bool

record metric_report =
  metric :: pystr
  series_count :: int
  in_use :: bool
  used_in :: "pystr list"
  labels :: "(pystr, label_usage) dict"

text \<open>The body of the loop of \<open>main\<close> (lines 138 to 156) for one item.\<close>

definition report_of ::
    "world \<Rightarrow> (pystr, pystr list) dict \<Rightarrow> pystr set \<Rightarrow> top_metric \<Rightarrow>
       pystr list \<times> (pyexc + metric_report)" where
  "report_of w used_metrics used_labels item =
     (case fetch_series_for_metric w (item_metric item) of
        (out1, Inl x) \<Rightarrow> (out1, Inl x)
      | (out1, Inr series_data) \<Rightarrow>
          (case analyze_labels_call series_data of
             (out2, Inl x) \<Rightarrow> (out1 @ out2, Inl x)
           | (out2, Inr label_cardinality) \<Rightarrow>
               (let label_usage =
                      map (\<lambda>(label, count).
                             (label, \<lparr>cardinality = count, label_in_use = label \<in> used_labels\<rparr>))
                        label_cardinality
                in (out1 @ out2,
                    Inr \<lparr>metric = item_metric item,
                         series_count = item_series_count item,
                         in_use = item_metric item \<in> set (keys used_metrics),
                         used_in = dict_get used_metrics (item_metric item) [],
                         labels = label_usage\<rparr>))))"

text \<open>
  The loop of \<open>main\<close> (line 137): the reports are appended one by one; the first exception
  ends the loop, and \<open>main\<close>, which catches nothing.
\<close>

fun reports ::
    "world \<Rightarrow> (pystr, pystr list) dict \<Rightarrow> pystr set \<Rightarrow> top_metric list \<Rightarrow>
       pystr list \<times> (pyexc + metric_report list)" where
  "reports w used_metrics used_labels [] = ([], Inr [])"
| "reports w used_metrics used_labels (item # items) =
     (case report_of w used_metrics used_labels item of
        (out, Inl x) \<Rightarrow> (out, Inl x)
      | (out, Inr r) \<Rightarrow>
          (case reports w used_metrics used_labels items of
             (out', Inl x) \<Rightarrow> (out @ out', Inl x)
           | (out', Inr rs) \<Rightarrow> (out @ out', Inr (r # rs))))"

text \<open>\<open>sorted(summary, key=lambda x: -x["series_count"])\<close>: Python's sort is stable.\<close>

definition sorted_summary :: "metric_report list \<Rightarrow> metric_report list" where
  "sorted_summary summary = sort_key (\<lambda>x. - series_count x) summary"

definition digest_line :: "metric_report \<Rightarrow> pystr" where
  "digest_line item =
     (let status = (if in_use item then [8218, 250, 214] @ str '' USED''
                    else [8218, 249, 229] @ str '' UNUSED'')
      in metric item @ str '': '' @ show_int (series_count item) @ str '' series - '' @ status @
         str '' ('' @
         (if used_in item \<noteq> [] then join (str '', '') (used_in item) else str ''not used'') @
         str '')'')"

text \<open>
  How a run ends: with the \<open>EnvironmentError\<close> of line 126, by the \<open>return\<close> of line 130,
  with an exception that nothing catches (and what was printed before it), or at the end of
  \<open>main\<close>.
\<close>

datatype outcome =
    EnvironmentError pystr
  | Returned "pystr list"
  | Uncaught pyexc "pystr list"
  | Finished "pystr list" "metric_report list"

definition main :: "world \<Rightarrow> outcome" where
  "main w =
     (if \<not> truthy (PROMETHEUS_URL w) then EnvironmentError (str ''PROMETHEUS_URL must be set'')
      else
        let (out1, ok) = is_prometheus_healthy w in
        if \<not> ok then Returned (out1 @ [str ''Prometheus is not healthy. Exiting...''])
        else
          let out2 = out1 @ [str ''Prometheus is healthy. Proceeding with cardinality analysis...'']
          in case fetch_top_cardinality_metrics w NUMBER_TOP_METRICS of
               (out3, Inl x) \<Rightarrow> Uncaught x (out2 @ out3)
             | (out3, Inr top_metrics) \<Rightarrow>
                 (let (out4, used_metrics, used_labels) =
                        extract_metrics_and_labels_from_queries w QUERIES_PATHS
                  in case reports w used_metrics used_labels top_metrics of
                       (out5, Inl x) \<Rightarrow> Uncaught x (out2 @ out3 @ out4 @ out5)
                     | (out5, Inr summary) \<Rightarrow>
                         (let out6 = [10 # str ''High-cardinality metrics in use:''] @
                                     map digest_line (sorted_summary summary)
                          in Finished
                               (out2 @ out3 @ out4 @ out5 @ out6 @
                                [[10, 63743, 252, 237, 230] @ str '' Saved metric summary to '' @
                                 METRICS_SUMMARY_PATH])
                               summary)))"

text \<open>
  The second component of \<open>Finished\<close> is the value handed to \<open>json.dump\<close>, that is, the
  content of the file \<open>metric_cardinality_summary.json\<close>.
\<close>


subsection \<open>The summary as a JSON document\<close>

datatype json =
    JNull
  | JBool bool
  | JInt int
  | JString pystr
  | JArray "json list"
  | JObject "(pystr \<times> json) list"

text \<open>
  \<open>json.dump(summary, f, indent=2)\<close> writes the list of dicts that \<open>main\<close> has built:
  each report is the dict with the keys \<open>metric\<close>, \<open>series_count\<close>, \<open>in_use\<close>,
  \<open>used_in\<close>, \<open>labels\<close> (lines 150 to 156), and each label entry the dict with the keys
  \<open>cardinality\<close> and \<open>in_use\<close> (lines 142 to 148). The document is taken as a JSON value;
  its layout as text is the JSON library's.
\<close>

definition label_usage_json :: "label_usage \<Rightarrow> json" where
  "label_usage_json e =
     JObject [(str ''cardinality'', JInt (int (cardinality e))),
              (str ''in_use'', JBool (label_in_use e))]"

definition report_json :: "metric_report \<Rightarrow> json" where
  "report_json r =
     JObject [(str ''metric'', JString (metric r)),
              (str ''series_count'', JInt (series_count r)),
              (str ''in_use'', JBool (in_use r)),
              (str ''used_in'', JArray (map JString (used_in r))),
              (str ''labels'', JObject (map (\<lambda>(label, e). (label, label_usage_json e)) (labels r)))]"

definition summary_json :: "metric_report list \<Rightarrow> json" where
  "summary_json summary = JArray (map report_json summary)"

text \<open>
  Modelled from the spec: the repository never reads \<open>metric_cardinality_summary.json\<close>
  back. The reader below follows the spec's data model of a MetricReport
  (\<open>metric: string, series_count: int, in_use: bool, used_in: sequence of source,
  labels: mapping label -> {cardinality: int, in_use: bool}\<close>); it answers \<open>None\<close> on a
  document of another shape.
\<close>

definition as_string :: "json \<Rightarrow> pystr option" where
  "as_string j = (case j of JString s \<Rightarrow> Some s | _ \<Rightarrow> None)"

definition as_int :: "json \<Rightarrow> int option" where
  "as_int j = (case j of JInt i \<Rightarrow> Some i | _ \<Rightarrow> None)"

definition as_bool :: "json \<Rightarrow> bool option" where
  "as_bool j = (case j of JBool b \<Rightarrow> Some b | _ \<Rightarrow> None)"

definition field :: "json \<Rightarrow> pystr \<Rightarrow> json option" where
  "field j k = (case j of JObject kvs \<Rightarrow> map_of kvs k | _ \<Rightarrow> None)"

definition parse_label_usage :: "json \<Rightarrow> label_usage option" where
  "parse_label_usage j =
     (case Option.bind (field j (str ''cardinality'')) as_int of
        None \<Rightarrow> None
      | Some c \<Rightarrow>
          (case Option.bind (field j (str ''in_use'')) as_bool of
             None \<Rightarrow> None
           | Some b \<Rightarrow> if c < 0 then None else Some \<lparr>cardinality = nat c, label_in_use = b\<rparr>))"

definition parse_labels :: "json \<Rightarrow> (pystr, label_usage) dict option" where
  "parse_labels j =
     (case j of
        JObject kvs \<Rightarrow> those (map (\<lambda>(label, e). map_option (Pair label) (parse_label_usage e)) kvs)
      | _ \<Rightarrow> None)"

definition parse_used_in :: "json \<Rightarrow> pystr list option" where
  "parse_used_in j = (case j of JArray xs \<Rightarrow> those (map as_string xs) | _ \<Rightarrow> None)"

definition parse_report :: "json \<Rightarrow> metric_report option" where
  "parse_report j =
     (case (Option.bind (field j (str ''metric'')) as_string,
            Option.bind (field j (str ''series_count'')) as_int,
            Option.bind (field j (str ''in_use'')) as_bool,
            Option.bind (field j (str ''used_in'')) parse_used_in,
            Option.bind (field j (str ''labels'')) parse_labels) of
        (Some m, Some n, Some u, Some srcs, Some ls) \<Rightarrow>
          Some \<lparr>metric = m, series_count = n, in_use = u, used_in = srcs, labels = ls\<rparr>
      | _ \<Rightarrow> None)"

definition parse_summary :: "json \<Rightarrow> metric_report list option" where
  "parse_summary j = (case j of JArray xs \<Rightarrow> those (map parse_report xs) | _ \<Rightarrow> None)"


section \<open>get\_all\_dashboards.py\<close>

text \<open>The four environment variables the script reads when it is loaded.\<close>

record dash_env =
  GRAFANA_URL :: "pystr option"
  GRAFANA_SESSION_COOKIE :: "pystr option"
  ALERTMANAGER_URL :: "pystr option"
  ALERTMANAGER_SESSION_COOKIE :: "pystr option"

text \<open>The module-level \<open>headers\<close> (lines 58 to 60), sent with every Grafana request.\<close>

definition headers :: "dash_env \<Rightarrow> (pystr, pystr) dict" where
  "headers env =
     (case GRAFANA_SESSION_COOKIE env of
        None \<Rightarrow> []
      | Some cookie \<Rightarrow>
          if cookie \<noteq> [] then [(str ''Cookie'', str ''grafana_session='' @ cookie)] else [])"

text \<open>The local \<open>headers\<close> of \<open>get_alertmanager_metrics\<close> (lines 124 to 126).\<close>

definition alertmanager_headers :: "dash_env \<Rightarrow> (pystr, pystr) dict" where
  "alertmanager_headers env =
     (case ALERTMANAGER_SESSION_COOKIE env of
        None \<Rightarrow> []
      | Some cookie \<Rightarrow>
          if cookie \<noteq> [] then [(str ''Cookie'', str ''alertmanager_session='' @ cookie)] else [])"

text \<open>
  The guard under \<open>if __name__ == "__main__"\<close> (lines 225 to 228): it raises
  \<open>EnvironmentError\<close> (\<open>Inl\<close>, with the message) or calls \<open>main()\<close>, whose Grafana requests
  carry \<open>headers\<close> (\<open>Inr\<close>).
\<close>

definition script_start :: "dash_env \<Rightarrow> pystr + (pystr, pystr) dict" where
  "script_start env =
     (if \<not> truthy (GRAFANA_URL env) \<or> \<not> truthy (GRAFANA_SESSION_COOKIE env)
      then Inl (str ''GRAFANA_URL and GRAFANA_SESSION_COOKIE must be set'')
      else Inr (headers env))"

text \<open>
  The AlertManager step of \<open>main\<close> (lines 216 to 220), given the answer typed at the
  prompt: skipped (\<open>Inr None\<close>), \<open>EnvironmentError\<close> (\<open>Inl\<close>), or the alerts are requested
  with the headers returned.
\<close>

definition alertmanager_step :: "dash_env \<Rightarrow> pystr \<Rightarrow> pystr + (pystr, pystr) dict option" where
  "alertmanager_step env answer =
     (if answer = str ''y'' \<or> answer = str ''Y'' then
        (if \<not> truthy (ALERTMANAGER_URL env) then Inl (str ''ALERTMANAGER_URL must be set'')
         else Inr (Some (alertmanager_headers env)))
      else Inr None)"


section \<open>Notions used in the statements\<close>

text \<open>The set stored under a key of a \<open>defaultdict(set)\<close>, empty for a key that is absent.\<close>

definition vals :: "('k, 'v list) dict \<Rightarrow> 'k \<Rightarrow> 'v list" where
  "vals d k = dict_get d k []"

text \<open>What a run writes to \<open>metric_cardinality_summary.json\<close>: the summary, or nothing when the run stops before line 168.\<close>

definition saved :: "outcome \<Rightarrow> metric_report list option" where
  "saved r = (case r of Finished out summary \<Rightarrow> Some summary | _ \<Rightarrow> None)"

text \<open>What a run prints.\<close>

definition printed :: "outcome \<Rightarrow> pystr list" where
  "printed r =
     (case r of
        Finished out summary \<Rightarrow> out
      | Returned out \<Rightarrow> out
      | Uncaught x out \<Rightarrow> out
      | EnvironmentError e \<Rightarrow> [])"

text \<open>The exception that ends a run, when one does.\<close>

definition raised :: "outcome \<Rightarrow> pyexc option" where
  "raised r = (case r of Uncaught x out \<Rightarrow> Some x | _ \<Rightarrow> None)"

text \<open>The list \<open>top_metrics\<close> of \<open>main\<close>, and the MetricUsageIndex \<open>used_metrics\<close> and the LabelUsageSet \<open>used_labels\<close> it gets from the query files.\<close>

definition top_metrics_of :: "world \<Rightarrow> top_metric list" where
  "top_metrics_of w =
     (case snd (fetch_top_cardinality_metrics w NUMBER_TOP_METRICS) of
        Inr top_metrics \<Rightarrow> top_metrics
      | Inl x \<Rightarrow> [])"

definition used_metrics_of :: "world \<Rightarrow> (pystr, pystr list) dict" where
  "used_metrics_of w = fst (snd (extract_metrics_and_labels_from_queries w QUERIES_PATHS))"

definition used_labels_of :: "world \<Rightarrow> pystr set" where
  "used_labels_of w = snd (snd (extract_metrics_and_labels_from_queries w QUERIES_PATHS))"

text \<open>The series observations that the request for a metric hands to the analysis: none when the
  request fails, and none when the data is no list of series.\<close>

definition fetched_series :: "world \<Rightarrow> pystr \<Rightarrow> series list" where
  "fetched_series w m =
     (case snd (fetch_series_for_metric w m) of
        Inr (Observations series_data) \<Rightarrow> series_data
      | _ \<Rightarrow> [])"

text \<open>A run used for the concrete instances below: Prometheus reports two metrics, the series
  request of the first one fails, the Grafana query file has two lines, the file of the single
  metric is missing, and reading the AlertManager file fails after its first line.\<close>

definition example_world :: world where
  "example_world =
     \<lparr>PROMETHEUS_URL = Some (str ''http://localhost:9090''),
      health = Response (),
      top_response = Response (Payload
        [\<lparr>item_metric = str ''debug_probe_total'', item_series_count = 50\<rparr>,
         \<lparr>item_metric = str ''http_requests_total'', item_series_count = 500\<rparr>]),
      series_response = (\<lambda>m.
        if m = str ''http_requests_total''
        then Response (Payload (Observations
               [[(str ''__name__'', str ''http_requests_total''), (str ''pod'', str ''a'')],
                [(str ''__name__'', str ''http_requests_total''), (str ''pod'', str ''b'')]]))
        else RequestException (str ''timeout'')),
      files = (\<lambda>p.
        if p = str ''results/grafana_promql_queries.txt''
        then Some ([str ''Board: rate(http_requests_total[5m])'', str ''Board: up''], None)
        else if p = str ''results/alertmanager_promql_expressions.txt''
        then Some ([str ''http_requests_total{pod=1} == 0''], Some (str ''Input/output error''))
        else None)\<rparr>"

text \<open>The summary of that run.\<close>

definition example_summary :: "metric_report list" where
  "example_summary =
     [\<lparr>metric = str ''debug_probe_total'', series_count = 50, in_use = False, used_in = [],
       labels = []\<rparr>,
      \<lparr>metric = str ''http_requests_total'', series_count = 500, in_use = True,
       used_in = [str ''grafana'', str ''alertmanager''],
       labels = [(str ''pod'', \<lparr>cardinality = 2, label_in_use = True\<rparr>)]\<rparr>]"

text \<open>The same run with another answer to the series request of the first metric: status 200
  and a body without \<open>data\<close>, so that line 65 raises \<open>KeyError\<close>; and status 200 with
  \<open>data\<close> being \<open>null\<close>.\<close>

definition keyless_world :: world where
  "keyless_world =
     example_world\<lparr>series_response := (\<lambda>m.
        if m = str ''debug_probe_total'' then Response (Undecodable KeyError)
        else series_response example_world m)\<rparr>"

definition null_data_world :: world where
  "null_data_world =
     example_world\<lparr>series_response := (\<lambda>m.
        if m = str ''debug_probe_total'' then Response (Payload Unsized)
        else series_response example_world m)\<rparr>"

text \<open>The shape of \<open>used_metrics\<close>: every metric is one key, and its sources are a
  non-empty set.\<close>

definition index_ok :: "(pystr, pystr list) dict \<Rightarrow> bool" where
  "index_ok um \<longleftrightarrow>
     distinct (keys um) \<and> (\<forall>k \<in> set (keys um). vals um k \<noteq> [] \<and> distinct (vals um k))"

text \<open>Three series of one metric, two of them with the same value of \<open>pod\<close>.\<close>

definition example_series :: "series list" where
  "example_series =
     [[(str ''__name__'', str ''http_requests_total''), (str ''pod'', str ''a'')],
      [(str ''__name__'', str ''http_requests_total''), (str ''pod'', str ''b'')],
      [(str ''__name__'', str ''http_requests_total''), (str ''pod'', str ''a'')]]"

text \<open>The line before the digest and the line after it.\<close>

definition digest_header :: pystr where
  "digest_header = 10 # str ''High-cardinality metrics in use:''"

definition saved_line :: pystr where
  "saved_line = [10, 63743, 252, 237, 230] @ str '' Saved metric summary to '' @ METRICS_SUMMARY_PATH"

text \<open>The line as the claim C8 words it: the status is the bare word.\<close>

definition claimed_digest_line :: "metric_report \<Rightarrow> pystr" where
  "claimed_digest_line item =
     metric item @ str '': '' @ show_int (series_count item) @ str '' series - '' @
     (if in_use item then str ''USED'' else str ''UNUSED'') @ str '' ('' @
     (if used_in item \<noteq> [] then join (str '', '') (used_in item) else str ''not used'') @
     str '')''"

text \<open>The whole string matches \<open>[a-zA-Z_:][a-zA-Z0-9_:]*\<close>.\<close>

definition is_metric_name :: "pystr \<Rightarrow> bool" where
  "is_metric_name m = (case m of [] \<Rightarrow> False | c # cs \<Rightarrow> is_metric_start c \<and> list_all is_metric_cont cs)"

text \<open>A match of the metric pattern inside a line \<open>pre @ m @ post\<close>, as a token: \<open>m\<close> matches
  the pattern, no character of the class \<open>[a-zA-Z0-9_:]\<close> follows it, and the characters of
  that class that stand right before it, if any, are digits only (so \<open>m\<close> is not the tail
  of a longer match).\<close>

definition maximal_metric_match :: "pystr \<Rightarrow> pystr \<Rightarrow> pystr \<Rightarrow> bool" where
  "maximal_metric_match pre m post \<longleftrightarrow>
     is_metric_name m \<and>
     (case post of [] \<Rightarrow> True | c # rest \<Rightarrow> \<not> is_metric_cont c) \<and>
     list_all (\<lambda>c. \<not> is_metric_start c) (takeWhile is_metric_cont (rev pre))"

text \<open>The whole string matches \<open>[a-zA-Z_][a-zA-Z0-9_]*\<close>.\<close>

definition is_label_name :: "pystr \<Rightarrow> bool" where
  "is_label_name k = (case k of [] \<Rightarrow> False | c # cs \<Rightarrow> is_label_start c \<and> list_all is_label_cont cs)"

text \<open>An identifier \<open>k\<close> of a line \<open>pre @ k @ ws @ = ...\<close>: \<open>k\<close> matches the pattern,
  \<open>ws\<close> is white space, and \<open>k\<close> is not the tail of a longer identifier.\<close>

definition label_key_match :: "pystr \<Rightarrow> pystr \<Rightarrow> pystr \<Rightarrow> bool" where
  "label_key_match pre k ws \<longleftrightarrow>
     is_label_name k \<and> list_all is_space ws \<and>
     list_all (\<lambda>c. \<not> is_label_start c) (takeWhile is_label_cont (rev pre))"


section \<open>Properties\<close>

subsection \<open>Dictionaries of sets\<close>

lemma keys_dd_add:
  "keys (dd_add k v d) = (if k \<in> set (keys d) then keys d else keys d @ [k])"
proof (induction d)
  case Nil
  show ?case by (simp add: keys_def)
next
  case (Cons a d)
  obtain k' vs where a: "a = (k', vs)" by (cases a)
  from Cons a show ?case by (simp add: keys_def)
qed

lemma set_keys_dd_add: "set (keys (dd_add k v d)) = insert k (set (keys d))"
  by (auto simp: keys_dd_add)

lemma distinct_keys_dd_add: "distinct (keys d) \<Longrightarrow> distinct (keys (dd_add k v d))"
  by (simp add: keys_dd_add)

lemma vals_dd_add:
  "vals (dd_add k v d) l = (if l = k then set_add v (vals d k) else vals d l)"
  by (induction d) (auto simp: vals_def dict_get_def set_add_def)

lemma set_set_add: "set (set_add x xs) = insert x (set xs)"
  by (auto simp: set_add_def)

lemma distinct_set_add: "distinct xs \<Longrightarrow> distinct (set_add x xs)"
  by (simp add: set_add_def)

lemma length_set_add: "length (set_add x xs) \<le> Suc (length xs)"
  by (simp add: set_add_def)

lemma set_add_nonempty: "set_add x xs \<noteq> []"
  by (auto simp: set_add_def)

lemma nonempty_dd_add:
  "\<forall>l \<in> set (keys d). vals d l \<noteq> [] \<Longrightarrow> \<forall>l \<in> set (keys (dd_add k v d)). vals (dd_add k v d) l \<noteq> []"
  by (simp add: set_keys_dd_add vals_dd_add set_add_nonempty)

lemma in_dict_vals:
  "distinct (keys d) \<Longrightarrow> (k, vs) \<in> set d \<Longrightarrow> vals d k = vs"
  by (simp add: vals_def dict_get_def keys_def)

lemma vals_not_key: "k \<notin> set (keys d) \<Longrightarrow> vals d k = []"
  by (simp add: vals_def dict_get_def keys_def map_of_eq_None_iff[THEN iffD2])

subsection \<open>analyze_labels\<close>

lemma count_series_Nil: "count_series [] lc = lc"
  by (simp add: count_series_def)

lemma count_series_Cons:
  "count_series ((l, v) # ser) lc =
     count_series ser (if l \<noteq> str ''__name__'' then dd_add l v lc else lc)"
  by (simp add: count_series_def)

lemma keys_count_series:
  "set (keys (count_series ser lc)) = set (keys lc) \<union> (set (keys ser) - {str ''__name__''})"
proof (induction ser arbitrary: lc)
  case Nil
  show ?case by (simp add: count_series_Nil keys_def)
next
  case (Cons a ser)
  obtain l v where a: "a = (l, v)" by (cases a)
  have k: "keys (a # ser) = l # keys ser" by (simp add: a keys_def)
  show ?case unfolding a count_series_Cons Cons.IH k[unfolded a]
    by (auto simp: set_keys_dd_add)
qed

lemma distinct_count_series:
  "distinct (keys lc) \<Longrightarrow> distinct (keys (count_series ser lc))"
proof (induction ser arbitrary: lc)
  case Nil
  then show ?case by (simp add: count_series_Nil)
next
  case (Cons a ser)
  obtain l v where a: "a = (l, v)" by (cases a)
  show ?case unfolding a count_series_Cons
    by (rule Cons.IH) (simp add: Cons.prems distinct_keys_dd_add)
qed

lemma vals_count_series_other:
  "l \<notin> set (keys ser) \<Longrightarrow> vals (count_series ser lc) l = vals lc l"
proof (induction ser arbitrary: lc)
  case Nil
  show ?case by (simp add: count_series_Nil)
next
  case (Cons a ser)
  obtain k v where a: "a = (k, v)" by (cases a)
  from Cons.prems have 1: "l \<noteq> k" and 2: "l \<notin> set (keys ser)" by (auto simp: a keys_def)
  show ?case unfolding a count_series_Cons
    using Cons.IH[OF 2] 1 by (simp add: vals_dd_add)
qed

lemma length_vals_count_series:
  "distinct (keys ser) \<Longrightarrow> length (vals (count_series ser lc) l) \<le> Suc (length (vals lc l))"
proof (induction ser arbitrary: lc)
  case Nil
  show ?case by (simp add: count_series_Nil)
next
  case (Cons a ser)
  obtain k v where a: "a = (k, v)" by (cases a)
  from Cons.prems have nk: "k \<notin> set (keys ser)" and d: "distinct (keys ser)"
    by (auto simp: a keys_def)
  let ?lc = "if k \<noteq> str ''__name__'' then dd_add k v lc else lc"
  show ?case
  proof (cases "l = k")
    case True
    have "vals (count_series ser ?lc) l = vals ?lc l"
      using nk True by (simp add: vals_count_series_other)
    moreover have "length (vals ?lc l) \<le> Suc (length (vals lc l))"
      using True by (simp add: vals_dd_add length_set_add)
    ultimately show ?thesis unfolding a count_series_Cons by simp
  next
    case False
    have "length (vals (count_series ser ?lc) l) \<le> Suc (length (vals ?lc l))"
      by (rule Cons.IH[OF d])
    moreover have "vals ?lc l = vals lc l" using False by (simp add: vals_dd_add)
    ultimately show ?thesis unfolding a count_series_Cons by simp
  qed
qed

lemma keys_fold_count_series:
  "set (keys (fold count_series ss lc)) =
     set (keys lc) \<union> {l. l \<noteq> str ''__name__'' \<and> (\<exists>s \<in> set ss. l \<in> set (keys s))}"
  by (induction ss arbitrary: lc) (auto simp: keys_count_series)

lemma distinct_fold_count_series:
  "distinct (keys lc) \<Longrightarrow> distinct (keys (fold count_series ss lc))"
  by (induction ss arbitrary: lc) (auto simp: distinct_count_series)

lemma length_vals_fold_count_series:
  "\<forall>s \<in> set ss. distinct (keys s) \<Longrightarrow>
     length (vals (fold count_series ss lc) l) \<le> length ss + length (vals lc l)"
proof (induction ss arbitrary: lc)
  case Nil
  show ?case by simp
next
  case (Cons s ss)
  have "length (vals (fold count_series ss (count_series s lc)) l)
          \<le> length ss + length (vals (count_series s lc) l)"
    using Cons.prems by (intro Cons.IH) simp
  moreover have "length (vals (count_series s lc) l) \<le> Suc (length (vals lc l))"
    using Cons.prems by (intro length_vals_count_series) simp
  ultimately show ?case by simp
qed

lemma keys_analyze_labels:
  "keys (snd (analyze_labels ss)) = keys (label_counter_of ss)"
  by (simp add: analyze_labels_def keys_def Let_def case_prod_unfold comp_def)

lemma set_keys_analyze_labels:
  "set (keys (snd (analyze_labels ss))) =
     {l. l \<noteq> str ''__name__'' \<and> (\<exists>s \<in> set ss. l \<in> set (keys s))}"
  by (simp add: keys_analyze_labels label_counter_of_def keys_fold_count_series) (simp add: keys_def)

lemma distinct_keys_label_counter_of: "distinct (keys (label_counter_of ss))"
  unfolding label_counter_of_def by (rule distinct_fold_count_series) (simp add: keys_def)

lemma distinct_keys_analyze_labels: "distinct (keys (snd (analyze_labels ss)))"
  by (simp add: keys_analyze_labels distinct_keys_label_counter_of)

lemma analyze_labels_bound:
  assumes d: "\<forall>s \<in> set ss. distinct (keys s)"
      and m: "(l, n) \<in> set (snd (analyze_labels ss))"
  shows "n \<le> length ss"
proof -
  from m obtain vs where in_lc: "(l, vs) \<in> set (label_counter_of ss)" and n: "n = length vs"
    by (auto simp: analyze_labels_def Let_def)
  have "distinct (keys (label_counter_of ss))" by (rule distinct_keys_label_counter_of)
  then have "vals (label_counter_of ss) l = vs" using in_lc by (rule in_dict_vals)
  moreover have "length (vals (label_counter_of ss) l) \<le> length ss + length (vals ([]::(pystr, pystr list) dict) l)"
    unfolding label_counter_of_def using d by (rule length_vals_fold_count_series)
  ultimately show ?thesis using n by (simp add: vals_def dict_get_def)
qed

subsection \<open>main\<close>

lemma reports_Inr:
  "snd (reports w um ul items) = Inr rs \<Longrightarrow>
     list_all2 (\<lambda>item r. snd (report_of w um ul item) = Inr r) items rs"
proof (induction items arbitrary: rs)
  case Nil
  then show ?case by simp
next
  case (Cons item items)
  obtain out res where r: "report_of w um ul item = (out, res)" by (cases "report_of w um ul item")
  obtain out' res' where rs: "reports w um ul items = (out', res')"
    by (cases "reports w um ul items")
  from Cons.prems r rs obtain r1 rs1 where "res = Inr r1" "res' = Inr rs1" "rs = r1 # rs1"
    by (cases res; cases res') auto
  with Cons.IH[of rs1] r rs show ?case by simp
qed

lemma reports_Inr_iff:
  "(\<exists>rs. snd (reports w um ul items) = Inr rs) \<longleftrightarrow>
     (\<forall>item \<in> set items. \<exists>r. snd (report_of w um ul item) = Inr r)"
proof (induction items)
  case Nil
  show ?case by simp
next
  case (Cons item items)
  obtain out res where r: "report_of w um ul item = (out, res)" by (cases "report_of w um ul item")
  obtain out' res' where rs: "reports w um ul items = (out', res')"
    by (cases "reports w um ul items")
  show ?case using Cons.IH r rs by (cases res; cases res') auto
qed

lemma main_cases:
  "main w =
     (if \<not> truthy (PROMETHEUS_URL w) then EnvironmentError (str ''PROMETHEUS_URL must be set'')
      else if \<not> snd (is_prometheus_healthy w)
        then Returned (fst (is_prometheus_healthy w) @ [str ''Prometheus is not healthy. Exiting...''])
      else
        (case snd (fetch_top_cardinality_metrics w NUMBER_TOP_METRICS) of
           Inl x \<Rightarrow>
             Uncaught x
               (fst (is_prometheus_healthy w) @
                [str ''Prometheus is healthy. Proceeding with cardinality analysis...''] @
                fst (fetch_top_cardinality_metrics w NUMBER_TOP_METRICS))
         | Inr top_metrics \<Rightarrow>
             (case snd (reports w (used_metrics_of w) (used_labels_of w) top_metrics) of
                Inl x \<Rightarrow>
                  Uncaught x
                    (fst (is_prometheus_healthy w) @
                     [str ''Prometheus is healthy. Proceeding with cardinality analysis...''] @
                     fst (fetch_top_cardinality_metrics w NUMBER_TOP_METRICS) @
                     fst (extract_metrics_and_labels_from_queries w QUERIES_PATHS) @
                     fst (reports w (used_metrics_of w) (used_labels_of w) top_metrics))
              | Inr summary \<Rightarrow>
                  Finished
                    (fst (is_prometheus_healthy w) @
                     [str ''Prometheus is healthy. Proceeding with cardinality analysis...''] @
                     fst (fetch_top_cardinality_metrics w NUMBER_TOP_METRICS) @
                     fst (extract_metrics_and_labels_from_queries w QUERIES_PATHS) @
                     fst (reports w (used_metrics_of w) (used_labels_of w) top_metrics) @
                     [10 # str ''High-cardinality metrics in use:''] @
                     map digest_line (sorted_summary summary) @
                     [[10, 63743, 252, 237, 230] @ str '' Saved metric summary to '' @
                      METRICS_SUMMARY_PATH])
                    summary)))"
  by (simp add: main_def Let_def case_prod_unfold used_metrics_of_def used_labels_of_def
      split: sum.splits)

lemma saved_main_iff:
  "saved (main w) = Some summary \<longleftrightarrow>
     truthy (PROMETHEUS_URL w) \<and> snd (is_prometheus_healthy w) \<and>
     (\<exists>top_metrics. snd (fetch_top_cardinality_metrics w NUMBER_TOP_METRICS) = Inr top_metrics) \<and>
     snd (reports w (used_metrics_of w) (used_labels_of w) (top_metrics_of w)) = Inr summary"
  by (auto simp: main_cases saved_def top_metrics_of_def split: sum.splits)

lemma saved_main:
  assumes "saved (main w) = Some summary"
  shows "list_all2 (\<lambda>item r. snd (report_of w (used_metrics_of w) (used_labels_of w) item) = Inr r)
           (top_metrics_of w) summary"
  using assms by (intro reports_Inr) (simp add: saved_main_iff)

lemma report_of_Inr_iff:
  "(\<exists>r. snd (report_of w um ul item) = Inr r) \<longleftrightarrow>
     (\<forall>x. series_response w (item_metric item) \<noteq> Response (Undecodable x)) \<and>
     series_response w (item_metric item) \<noteq> Response (Payload Unsized)"
proof (cases "series_response w (item_metric item)")
  case (RequestException e)
  then show ?thesis
    by (simp add: report_of_def fetch_series_for_metric_def analyze_labels_call_def Let_def)
next
  case (Response p)
  show ?thesis
  proof (cases p)
    case (Undecodable x)
    with Response show ?thesis by (simp add: report_of_def fetch_series_for_metric_def)
  next
    case (Payload d)
    with Response show ?thesis
      by (cases d)
         (simp_all add: report_of_def fetch_series_for_metric_def analyze_labels_call_def Let_def)
  qed
qed

lemma report_of_fields:
  assumes "snd (report_of w um ul item) = Inr r"
  shows "metric r = item_metric item"
    and "series_count r = item_series_count item"
    and "in_use r = (item_metric item \<in> set (keys um))"
    and "used_in r = dict_get um (item_metric item) []"
    and "labels r =
           map (\<lambda>(label, count). (label, \<lparr>cardinality = count, label_in_use = label \<in> ul\<rparr>))
             (snd (analyze_labels (fetched_series w (item_metric item))))"
proof -
  have an: "snd (analyze_labels []) = []" by (simp add: analyze_labels_def label_counter_of_def)
  have "metric r = item_metric item \<and>
        series_count r = item_series_count item \<and>
        in_use r = (item_metric item \<in> set (keys um)) \<and>
        used_in r = dict_get um (item_metric item) [] \<and>
        labels r =
           map (\<lambda>(label, count). (label, \<lparr>cardinality = count, label_in_use = label \<in> ul\<rparr>))
             (snd (analyze_labels (fetched_series w (item_metric item))))"
  proof (cases "series_response w (item_metric item)")
    case (RequestException e)
    with assms show ?thesis
      by (auto simp: report_of_def fetch_series_for_metric_def analyze_labels_call_def Let_def
          fetched_series_def an)
  next
    case (Response p)
    show ?thesis
    proof (cases p)
      case (Undecodable x)
      with Response assms show ?thesis by (simp add: report_of_def fetch_series_for_metric_def)
    next
      case (Payload d)
      with Response assms show ?thesis
        by (cases d)
           (auto simp: report_of_def fetch_series_for_metric_def analyze_labels_call_def Let_def
              fetched_series_def an)
    qed
  qed
  then show "metric r = item_metric item"
    and "series_count r = item_series_count item"
    and "in_use r = (item_metric item \<in> set (keys um))"
    and "used_in r = dict_get um (item_metric item) []"
    and "labels r =
           map (\<lambda>(label, count). (label, \<lparr>cardinality = count, label_in_use = label \<in> ul\<rparr>))
             (snd (analyze_labels (fetched_series w (item_metric item))))"
    by simp_all
qed

lemmas char_classes =
  is_metric_start_def is_metric_cont_def is_label_start_def is_label_cont_def is_space_def

subsection \<open>The example run\<close>

lemma example_used:
  "used_metrics_of example_world =
     [(str ''Board:'', [str ''grafana'']),
      (str ''rate'', [str ''grafana'']),
      (str ''http_requests_total'', [str ''grafana'', str ''alertmanager'']),
      (str ''m'', [str ''grafana'']),
      (str ''up'', [str ''grafana'']),
      (str ''pod'', [str ''alertmanager''])]"
  "used_labels_of example_world = {str ''pod''}"
  by (simp_all add: used_metrics_of_def used_labels_of_def
      extract_metrics_and_labels_from_queries_def QUERIES_PATHS_def scan_path_def scan_line_def
      example_world_def source_of_def str_def set_add_def char_classes)

lemma example_tops:
  "snd (fetch_top_cardinality_metrics example_world NUMBER_TOP_METRICS) =
     Inr [\<lparr>item_metric = str ''debug_probe_total'', item_series_count = 50\<rparr>,
          \<lparr>item_metric = str ''http_requests_total'', item_series_count = 500\<rparr>]"
  by (simp add: fetch_top_cardinality_metrics_def example_world_def)

lemma example_report_0:
  "snd (report_of example_world (used_metrics_of example_world) (used_labels_of example_world)
         \<lparr>item_metric = str ''debug_probe_total'', item_series_count = 50\<rparr>) =
   Inr (example_summary ! 0)"
proof -
  have "snd (report_of example_world um ul
               \<lparr>item_metric = str ''debug_probe_total'', item_series_count = 50\<rparr>) =
        Inr \<lparr>metric = str ''debug_probe_total'', series_count = 50,
             in_use = str ''debug_probe_total'' \<in> set (keys um),
             used_in = dict_get um (str ''debug_probe_total'') [],
             labels = []\<rparr>" for um ul
    by (simp add: report_of_def Let_def fetch_series_for_metric_def analyze_labels_call_def
        example_world_def str_def analyze_labels_def label_counter_of_def)
  then show ?thesis
    by (simp add: example_used example_summary_def keys_def dict_get_def str_def)
qed

lemma example_report_1:
  "snd (report_of example_world (used_metrics_of example_world) (used_labels_of example_world)
         \<lparr>item_metric = str ''http_requests_total'', item_series_count = 500\<rparr>) =
   Inr (example_summary ! 1)"
proof -
  have "snd (report_of example_world um ul
               \<lparr>item_metric = str ''http_requests_total'', item_series_count = 500\<rparr>) =
        Inr \<lparr>metric = str ''http_requests_total'', series_count = 500,
             in_use = str ''http_requests_total'' \<in> set (keys um),
             used_in = dict_get um (str ''http_requests_total'') [],
             labels = [(str ''pod'', \<lparr>cardinality = 2, label_in_use = str ''pod'' \<in> ul\<rparr>)]\<rparr>"
    for um ul
    by (simp add: report_of_def Let_def fetch_series_for_metric_def analyze_labels_call_def
        example_world_def str_def analyze_labels_def label_counter_of_def count_series_def
        set_add_def)
  then show ?thesis
    by (simp add: example_used example_summary_def keys_def dict_get_def str_def)
qed

lemma reports_Cons_Inr:
  assumes "snd (report_of w um ul item) = Inr r" and "snd (reports w um ul items) = Inr rs"
  shows "snd (reports w um ul (item # items)) = Inr (r # rs)"
  using assms
  by (cases "report_of w um ul item"; cases "reports w um ul items") simp

lemma reports_Cons_Inl:
  assumes "snd (report_of w um ul item) = Inl x"
  shows "snd (reports w um ul (item # items)) = Inl x"
  using assms by (cases "report_of w um ul item") simp

lemma example_reports:
  "snd (reports example_world (used_metrics_of example_world) (used_labels_of example_world)
         [\<lparr>item_metric = str ''debug_probe_total'', item_series_count = 50\<rparr>,
          \<lparr>item_metric = str ''http_requests_total'', item_series_count = 500\<rparr>]) =
   Inr example_summary"
proof -
  have e: "example_summary = [example_summary ! 0, example_summary ! 1]"
    by (simp add: example_summary_def)
  have "snd (reports example_world (used_metrics_of example_world) (used_labels_of example_world)
         [\<lparr>item_metric = str ''debug_probe_total'', item_series_count = 50\<rparr>,
          \<lparr>item_metric = str ''http_requests_total'', item_series_count = 500\<rparr>]) =
        Inr [example_summary ! 0, example_summary ! 1]"
    by (intro reports_Cons_Inr example_report_0 example_report_1) simp
  with e show ?thesis by simp
qed

lemma example_ready:
  "truthy (PROMETHEUS_URL example_world)" "snd (is_prometheus_healthy example_world)"
  by (simp_all add: example_world_def truthy_def str_def is_prometheus_healthy_def)

lemma example_saved: "saved (main example_world) = Some example_summary"
  unfolding saved_main_iff top_metrics_of_def example_tops
  using example_ready example_reports by simp

subsection \<open>The usage index\<close>

lemma fold_preserves:
  assumes "\<And>x s. P s \<Longrightarrow> P (f x s)" and "P s"
  shows "P (fold f xs s)"
  using assms(2) by (induction xs arbitrary: s) (simp_all add: assms(1))

lemma index_ok_dd_add:
  assumes "index_ok um"
  shows "index_ok (dd_add m source um)"
proof -
  have "distinct (vals um m)"
    using assms by (cases "m \<in> set (keys um)") (simp_all add: index_ok_def vals_not_key)
  then have "distinct (set_add source (vals um m))" by (rule distinct_set_add)
  with assms show ?thesis
    by (simp add: index_ok_def distinct_keys_dd_add set_keys_dd_add vals_dd_add set_add_nonempty)
qed

lemma index_ok_scan_line:
  "index_ok (fst (snd st)) \<Longrightarrow> index_ok (fst (snd (scan_line source line st)))"
  by (cases st) (auto simp: scan_line_def intro!: fold_preserves index_ok_dd_add)

lemma scan_line_out: "fst (scan_line source line st) = fst st"
  by (cases st) (simp add: scan_line_def)

lemma scan_path_usage:
  "snd (scan_path w path st) =
     (case files w path of
        None \<Rightarrow> snd st
      | Some (lines, failure) \<Rightarrow> snd (fold (scan_line (source_of path)) lines st))"
  by (cases st)
     (simp add: scan_path_def Let_def case_prod_unfold split: option.splits)

lemma index_ok_scan_path:
  assumes ok: "index_ok (fst (snd st))"
  shows "index_ok (fst (snd (scan_path w path st)))"
proof (cases "files w path")
  case None
  with ok show ?thesis by (simp add: scan_path_usage)
next
  case (Some f)
  obtain lines failure where f: "f = (lines, failure)" by (cases f)
  have "index_ok (fst (snd (fold (scan_line (source_of path)) lines st)))"
    by (rule fold_preserves[where P = "\<lambda>s. index_ok (fst (snd s))"])
       (auto intro: index_ok_scan_line ok)
  with Some f show ?thesis by (simp add: scan_path_usage)
qed

lemma index_ok_used_metrics: "index_ok (used_metrics_of w)"
proof -
  have "index_ok (fst (snd (fold (scan_path w) QUERIES_PATHS ([], [], {}))))"
  proof (rule fold_preserves[where P = "\<lambda>s. index_ok (fst (snd s))"])
    show "index_ok (fst (snd ([]::pystr list, []::(pystr, pystr list) dict, {}::pystr set)))"
      by (simp add: index_ok_def keys_def)
  qed (rule index_ok_scan_path)
  then show ?thesis
    by (simp add: used_metrics_of_def extract_metrics_and_labels_from_queries_def)
qed

lemma used_in_nonempty:
  "m \<in> set (keys (used_metrics_of w)) \<Longrightarrow> dict_get (used_metrics_of w) m [] \<noteq> []"
  using index_ok_used_metrics[of w] by (simp add: index_ok_def vals_def)

lemma unused_empty: "m \<notin> set (keys um) \<Longrightarrow> dict_get um m [] = []"
  using vals_not_key[of m um] by (simp add: vals_def)

subsection \<open>Usage flags of a report\<close>

lemma list_all2_member:
  "list_all2 P xs ys \<Longrightarrow> y \<in> set ys \<Longrightarrow> \<exists>x \<in> set xs. P x y"
  by (induction rule: list_all2_induct) auto

lemma list_all2_maps:
  "list_all2 P xs ys \<Longrightarrow> (\<And>x y. P x y \<Longrightarrow> f y = g x) \<Longrightarrow> map f ys = map g xs"
  by (induction rule: list_all2_induct) auto

lemma in_summary:
  assumes "saved (main w) = Some summary" and "r \<in> set summary"
  obtains item where "item \<in> set (top_metrics_of w)"
    and "snd (report_of w (used_metrics_of w) (used_labels_of w) item) = Inr r"
  using list_all2_member[OF saved_main[OF assms(1)] assms(2)] by blast

text \<open>
Claim C1. In every report of the summary, \<open>in_use\<close> holds exactly when the metric name is a
  key of the MetricUsageIndex built from the query files; \<open>used_in\<close> is the list of sources
  stored for the metric there, and the empty list when the metric is not in use; and for every
  label \<open>l\<close> of the report, \<open>in_use\<close> of the label holds exactly when \<open>l\<close> is in the
  LabelUsageSet. The last test mentions neither the metric nor the cardinality.
\<close>

theorem usage_flags:
  assumes "saved (main w) = Some summary" and "r \<in> set summary"
  shows "(in_use r \<longleftrightarrow> metric r \<in> set (keys (used_metrics_of w))) \<and>
         used_in r = dict_get (used_metrics_of w) (metric r) [] \<and>
         (\<not> in_use r \<longrightarrow> used_in r = []) \<and>
         (\<forall>(l, e) \<in> set (labels r). label_in_use e \<longleftrightarrow> l \<in> used_labels_of w)"
proof -
  from assms obtain item where
    r: "snd (report_of w (used_metrics_of w) (used_labels_of w) item) = Inr r"
    by (rule in_summary)
  show ?thesis unfolding report_of_fields[OF r]
    by (auto simp: unused_empty)
qed

theorem usage_flags_witness:
  "saved (main example_world) = Some example_summary \<and>
   example_summary ! 1 \<in> set example_summary \<and>
   in_use (example_summary ! 1) \<and>
   used_in (example_summary ! 1) = [str ''grafana'', str ''alertmanager''] \<and>
   \<not> in_use (example_summary ! 0) \<and>
   used_in (example_summary ! 0) = [] \<and>
   labels (example_summary ! 1) = [(str ''pod'', \<lparr>cardinality = 2, label_in_use = True\<rparr>)] \<and>
   str ''pod'' \<in> used_labels_of example_world"
  using example_saved usage_flags[OF example_saved, of "example_summary ! 1"]
  by (simp add: example_summary_def example_used)

subsection \<open>Labels of a report\<close>

text \<open>
Claim C10. The \<open>labels\<close> of a report have exactly the label names that occur in one of the
  series fetched for its metric, \<open>__name__\<close> left out, each once. So a label of the
  LabelUsageSet that none of the metric's series carries is no key of the report.
\<close>

theorem labels_are_the_series_labels:
  assumes "saved (main w) = Some summary" and "r \<in> set summary"
  shows "set (keys (labels r)) =
           {l. l \<noteq> str ''__name__'' \<and>
               (\<exists>s \<in> set (fetched_series w (metric r)). l \<in> set (keys s))} \<and>
         distinct (keys (labels r)) \<and>
         (\<forall>l \<in> used_labels_of w.
            (\<forall>s \<in> set (fetched_series w (metric r)). l \<notin> set (keys s)) \<longrightarrow>
            l \<notin> set (keys (labels r)))"
proof -
  from assms obtain item where
    r: "snd (report_of w (used_metrics_of w) (used_labels_of w) item) = Inr r"
    by (rule in_summary)
  have k: "keys (labels r) = keys (snd (analyze_labels (fetched_series w (metric r))))"
    unfolding report_of_fields[OF r] by (simp add: keys_def case_prod_unfold comp_def)
  show ?thesis unfolding k
    by (simp add: set_keys_analyze_labels distinct_keys_analyze_labels)
qed

lemma example_fetched:
  "fetched_series example_world (str ''http_requests_total'') =
     [[(str ''__name__'', str ''http_requests_total''), (str ''pod'', str ''a'')],
      [(str ''__name__'', str ''http_requests_total''), (str ''pod'', str ''b'')]]"
  by (simp add: fetched_series_def fetch_series_for_metric_def example_world_def)

theorem labels_are_the_series_labels_witness:
  "saved (main example_world) = Some example_summary \<and>
   example_summary ! 1 \<in> set example_summary \<and>
   keys (labels (example_summary ! 1)) = [str ''pod''] \<and>
   fetched_series example_world (metric (example_summary ! 1)) =
     [[(str ''__name__'', str ''http_requests_total''), (str ''pod'', str ''a'')],
      [(str ''__name__'', str ''http_requests_total''), (str ''pod'', str ''b'')]] \<and>
   set (keys (labels (example_summary ! 1))) =
     {l. l \<noteq> str ''__name__'' \<and>
         (\<exists>s \<in> set (fetched_series example_world (metric (example_summary ! 1))).
            l \<in> set (keys s))}"
proof -
  have m: "example_summary ! 1 \<in> set example_summary" by (simp add: example_summary_def)
  have k: "keys (labels (example_summary ! 1)) = [str ''pod'']"
    by (simp add: example_summary_def keys_def)
  have f: "fetched_series example_world (metric (example_summary ! 1)) =
     [[(str ''__name__'', str ''http_requests_total''), (str ''pod'', str ''a'')],
      [(str ''__name__'', str ''http_requests_total''), (str ''pod'', str ''b'')]]"
    using example_fetched by (simp add: example_summary_def)
  from labels_are_the_series_labels[OF example_saved m] example_saved m k f show ?thesis by blast
qed

subsection \<open>Cardinalities\<close>

lemma example_series_labels: "snd (analyze_labels example_series) = [(str ''pod'', 2)]"
  by (simp add: example_series_def analyze_labels_def label_counter_of_def count_series_def
      set_add_def str_def)

text \<open>
Claim C5. The cardinality that \<open>analyze_labels\<close> reports for a label is at most the number
  of series it was given, and no series give the empty mapping. A series is a Python
  \<open>dict\<close>, so its keys are distinct.
\<close>

theorem cardinality_bound:
  assumes "\<forall>s \<in> set series_data. distinct (keys s)"
  shows "(\<forall>(l, n) \<in> set (snd (analyze_labels series_data)). n \<le> length series_data) \<and>
         snd (analyze_labels []) = []"
proof
  show "\<forall>(l, n) \<in> set (snd (analyze_labels series_data)). n \<le> length series_data"
    using analyze_labels_bound[OF assms] by auto
  show "snd (analyze_labels []) = []"
    by (simp add: analyze_labels_def label_counter_of_def)
qed

theorem cardinality_bound_witness:
  "list_all (\<lambda>s. distinct (keys s)) example_series \<and>
   snd (analyze_labels example_series) = [(str ''pod'', 2)] \<and>
   length example_series = 3 \<and>
   snd (analyze_labels []) = []"
proof -
  have d: "\<forall>s \<in> set example_series. distinct (keys s)"
    by (simp add: example_series_def keys_def str_def)
  from cardinality_bound[OF d] d show ?thesis
    by (simp add: example_series_labels list_all_iff) (simp add: example_series_def)
qed

subsection \<open>Failures of single items\<close>

lemma caught_failures:
  "files w path = None \<Longrightarrow>
     scan_path w path (out, um, ul) =
       (out @ [[8218, 246, 8224, 212, 8719, 232] @ str '' Skipping missing query file: '' @ path],
        um, ul)"
  "files w path = Some (lines, Some e') \<Longrightarrow>
     scan_path w path (out, um, ul) =
       (fst (fold (scan_line (source_of path)) lines (out, um, ul)) @
          [[8218, 249, 229] @ str '' Error reading '' @ path @ str '': '' @ e'],
        snd (fold (scan_line (source_of path)) lines (out, um, ul)))"
  "series_response w (item_metric item) = RequestException e \<Longrightarrow>
     fetch_series_for_metric w (item_metric item) =
       ([str ''Warning: Could not fetch series for metric '' @ item_metric item @ str '': '' @ e],
        Inr (Observations []))"
  by (simp_all add: scan_path_def Let_def case_prod_unfold fetch_series_for_metric_def)

lemma healthy_iff: "snd (is_prometheus_healthy w) \<longleftrightarrow> (\<exists>u. health w = Response u)"
  by (cases "health w") (simp_all add: is_prometheus_healthy_def)

lemma top_decodable_iff:
  "(\<exists>top_metrics. snd (fetch_top_cardinality_metrics w NUMBER_TOP_METRICS) = Inr top_metrics) \<longleftrightarrow>
     (\<forall>x. top_response w \<noteq> Response (Undecodable x))"
proof (cases "top_response w")
  case (RequestException e)
  then show ?thesis by (simp add: fetch_top_cardinality_metrics_def)
next
  case (Response p)
  then show ?thesis by (cases p) (simp_all add: fetch_top_cardinality_metrics_def)
qed

lemma main_saves_iff:
  "(\<exists>summary. saved (main w) = Some summary) \<longleftrightarrow>
     truthy (PROMETHEUS_URL w) \<and> (\<exists>u. health w = Response u) \<and>
     (\<forall>x. top_response w \<noteq> Response (Undecodable x)) \<and>
     (\<forall>item \<in> set (top_metrics_of w).
        (\<forall>x. series_response w (item_metric item) \<noteq> Response (Undecodable x)) \<and>
        series_response w (item_metric item) \<noteq> Response (Payload Unsized))"
proof -
  have "(\<exists>summary. saved (main w) = Some summary) \<longleftrightarrow>
     truthy (PROMETHEUS_URL w) \<and> snd (is_prometheus_healthy w) \<and>
     (\<exists>top_metrics. snd (fetch_top_cardinality_metrics w NUMBER_TOP_METRICS) = Inr top_metrics) \<and>
     (\<exists>summary. snd (reports w (used_metrics_of w) (used_labels_of w) (top_metrics_of w)) = Inr summary)"
    unfolding saved_main_iff by blast
  then show ?thesis
    unfolding reports_Inr_iff report_of_Inr_iff healthy_iff top_decodable_iff .
qed

lemma raised_main:
  assumes "truthy (PROMETHEUS_URL w)" and "snd (is_prometheus_healthy w)"
    and "snd (fetch_top_cardinality_metrics w NUMBER_TOP_METRICS) = Inr top_metrics"
    and "snd (reports w (used_metrics_of w) (used_labels_of w) top_metrics) = Inl x"
  shows "raised (main w) = Some x" and "saved (main w) = None"
  using assms by (simp_all add: main_cases raised_def saved_def)

lemma keyless_report:
  "snd (report_of keyless_world um ul
          \<lparr>item_metric = str ''debug_probe_total'', item_series_count = 50\<rparr>) = Inl KeyError"
  by (simp add: report_of_def fetch_series_for_metric_def keyless_world_def)

lemma null_data_report:
  "snd (report_of null_data_world um ul
          \<lparr>item_metric = str ''debug_probe_total'', item_series_count = 50\<rparr>) = Inl TypeError"
  by (simp add: report_of_def fetch_series_for_metric_def null_data_world_def
      analyze_labels_call_def)

lemma variant_ready:
  "truthy (PROMETHEUS_URL keyless_world)" "snd (is_prometheus_healthy keyless_world)"
  "truthy (PROMETHEUS_URL null_data_world)" "snd (is_prometheus_healthy null_data_world)"
  "snd (fetch_top_cardinality_metrics keyless_world NUMBER_TOP_METRICS) =
     Inr [\<lparr>item_metric = str ''debug_probe_total'', item_series_count = 50\<rparr>,
          \<lparr>item_metric = str ''http_requests_total'', item_series_count = 500\<rparr>]"
  "snd (fetch_top_cardinality_metrics null_data_world NUMBER_TOP_METRICS) =
     Inr [\<lparr>item_metric = str ''debug_probe_total'', item_series_count = 50\<rparr>,
          \<lparr>item_metric = str ''http_requests_total'', item_series_count = 500\<rparr>]"
  by (simp_all add: keyless_world_def null_data_world_def example_world_def truthy_def str_def
      is_prometheus_healthy_def fetch_top_cardinality_metrics_def)

text \<open>
Claim C6 says that no failure of a single item ends the run, and that a failed series fetch
  is replaced by an empty result. That holds for a request that raises
  \<open>RequestException\<close> (the example run writes its summary). It fails for a series answer
  with status 200 and no \<open>data\<close>: line 65 raises \<open>KeyError\<close>, line 66 catches
  \<open>RequestException\<close> only, and \<open>main\<close> ends before a summary is written. It fails as
  well for \<open>data\<close> being \<open>null\<close>: \<open>len(series_data)\<close> at line 73 stands before the
  \<open>try\<close> of \<open>analyze_labels\<close> and raises \<open>TypeError\<close>.
\<close>

theorem malformed_series_answer_aborts:
  "series_response keyless_world (str ''debug_probe_total'') = Response (Undecodable KeyError) \<and>
   raised (main keyless_world) = Some KeyError \<and>
   saved (main keyless_world) = None \<and>
   series_response null_data_world (str ''debug_probe_total'') = Response (Payload Unsized) \<and>
   raised (main null_data_world) = Some TypeError \<and>
   saved (main null_data_world) = None \<and>
   series_response example_world (str ''debug_probe_total'') = RequestException (str ''timeout'') \<and>
   saved (main example_world) = Some example_summary"
proof -
  have 1: "raised (main keyless_world) = Some KeyError" "saved (main keyless_world) = None"
    by (rule raised_main[OF variant_ready(1,2,5)], rule reports_Cons_Inl, rule keyless_report)+
  have 2: "raised (main null_data_world) = Some TypeError" "saved (main null_data_world) = None"
    by (rule raised_main[OF variant_ready(3,4,6)], rule reports_Cons_Inl, rule null_data_report)+
  have 3: "series_response keyless_world (str ''debug_probe_total'') = Response (Undecodable KeyError)"
    "series_response null_data_world (str ''debug_probe_total'') = Response (Payload Unsized)"
    "series_response example_world (str ''debug_probe_total'') = RequestException (str ''timeout'')"
    by (simp_all add: keyless_world_def null_data_world_def example_world_def str_def)
  from 1 2 3 example_saved show ?thesis by simp
qed

theorem malformed_series_answer_aborts_witness:
  "saved (main keyless_world) \<noteq> saved (main example_world) \<and>
   raised (main keyless_world) = Some KeyError \<and>
   raised (main null_data_world) = Some TypeError"
  using malformed_series_answer_aborts by simp

subsection \<open>Order of the summary\<close>

lemma printed_main:
  assumes "saved (main w) = Some summary"
  shows "\<exists>pre. printed (main w) =
           pre @ digest_header # map digest_line (sorted_summary summary) @ [saved_line]"
proof -
  from assms obtain top_metrics where
    c: "truthy (PROMETHEUS_URL w)" "snd (is_prometheus_healthy w)"
       "snd (fetch_top_cardinality_metrics w NUMBER_TOP_METRICS) = Inr top_metrics"
       "snd (reports w (used_metrics_of w) (used_labels_of w) top_metrics) = Inr summary"
    by (auto simp: saved_main_iff top_metrics_of_def)
  have "printed (main w) =
          (fst (is_prometheus_healthy w) @
           [str ''Prometheus is healthy. Proceeding with cardinality analysis...''] @
           fst (fetch_top_cardinality_metrics w NUMBER_TOP_METRICS) @
           fst (extract_metrics_and_labels_from_queries w QUERIES_PATHS) @
           fst (reports w (used_metrics_of w) (used_labels_of w) top_metrics)) @
          digest_header # map digest_line (sorted_summary summary) @ [saved_line]"
    using c by (simp add: main_cases printed_def digest_header_def saved_line_def)
  then show ?thesis by blast
qed

lemma sorted_summary_desc:
  "sorted_wrt (\<lambda>a b. series_count b \<le> series_count a) (sorted_summary summary)"
proof -
  have "sorted (map (\<lambda>x. - series_count x) (sorted_summary summary))"
    unfolding sorted_summary_def by (rule sorted_sort_key)
  then show ?thesis by (simp add: sorted_map)
qed

text \<open>
Claim C2, amended. The summary written to \<open>metric_cardinality_summary.json\<close> keeps the
  order of the list that the top-k query returned: \<open>main\<close> sorts only what it prints. The
  printed digest goes through the reports by descending \<open>series_count\<close>, reports with the
  same count in their order in the summary.
\<close>

theorem summary_order:
  assumes "saved (main w) = Some summary"
  shows "map metric summary = map item_metric (top_metrics_of w) \<and>
         map series_count summary = map item_series_count (top_metrics_of w) \<and>
         (\<exists>pre. printed (main w) =
            pre @ digest_header # map digest_line (sorted_summary summary) @ [saved_line]) \<and>
         sorted_wrt (\<lambda>a b. series_count b \<le> series_count a) (sorted_summary summary) \<and>
         mset (sorted_summary summary) = mset summary \<and>
         (\<forall>n. filter (\<lambda>r. series_count r = n) (sorted_summary summary) =
              filter (\<lambda>r. series_count r = n) summary)"
proof (intro conjI allI)
  show "map metric summary = map item_metric (top_metrics_of w)"
    using saved_main[OF assms] by (rule list_all2_maps) (rule report_of_fields)
  show "map series_count summary = map item_series_count (top_metrics_of w)"
    using saved_main[OF assms] by (rule list_all2_maps) (rule report_of_fields)
  show "\<exists>pre. printed (main w) =
            pre @ digest_header # map digest_line (sorted_summary summary) @ [saved_line]"
    using assms by (rule printed_main)
  show "sorted_wrt (\<lambda>a b. series_count b \<le> series_count a) (sorted_summary summary)"
    by (rule sorted_summary_desc)
  show "mset (sorted_summary summary) = mset summary"
    by (simp add: sorted_summary_def)
  fix n
  have "filter (\<lambda>r. - series_count r = - n) (sort_key (\<lambda>x. - series_count x) summary) =
        filter (\<lambda>r. - series_count r = - n) summary"
    by (rule sort_key_stable)
  then show "filter (\<lambda>r. series_count r = n) (sorted_summary summary) =
              filter (\<lambda>r. series_count r = n) summary"
    by (simp add: sorted_summary_def)
qed

text \<open>
As the claim C2 states it, the summary that is written would be sorted by descending
  \<open>series_count\<close>. In the example run Prometheus answers with the counts 50 and 500 in
  this order, and the summary is written in this order.
\<close>

theorem saved_summary_not_sorted:
  "saved (main example_world) = Some example_summary \<and>
   map series_count example_summary = [50, 500] \<and>
   \<not> sorted_wrt (\<lambda>a b. series_count b \<le> series_count a) example_summary"
  using example_saved by (simp add: example_summary_def)

theorem summary_order_witness:
  "saved (main example_world) = Some example_summary \<and>
   map metric example_summary = [str ''debug_probe_total'', str ''http_requests_total''] \<and>
   map metric (sorted_summary example_summary) =
     [str ''http_requests_total'', str ''debug_probe_total'']"
  using summary_order[OF example_saved] example_saved
  by (simp add: example_summary_def sorted_summary_def)

subsection \<open>The digest\<close>

text \<open>
Claim C8, amended. The digest has one line for each report. The line is the metric,
  \<open>: \<close>, the series count, \<open> series - \<close>, a mark of three characters and a blank, the
  status word, and the sources in parentheses: for a metric of the MetricUsageIndex the status
  word is \<open>USED\<close> and the parentheses hold the sources joined by \<open>, \<close>; for any other
  metric the status word is \<open>UNUSED\<close> and the line ends with \<open>(not used)\<close>.
\<close>

theorem digest_lines:
  assumes "saved (main w) = Some summary"
  shows "(\<exists>pre. printed (main w) =
            pre @ digest_header # map digest_line (sorted_summary summary) @ [saved_line]) \<and>
         length (map digest_line (sorted_summary summary)) = length summary \<and>
         mset (map digest_line (sorted_summary summary)) = mset (map digest_line summary) \<and>
         (\<forall>r \<in> set summary.
            digest_line r =
              metric r @ str '': '' @ show_int (series_count r) @ str '' series - '' @
              (if metric r \<in> set (keys (used_metrics_of w))
               then [8218, 250, 214] @ str '' USED ('' @
                    join (str '', '') (dict_get (used_metrics_of w) (metric r) []) @ str '')''
               else [8218, 249, 229] @ str '' UNUSED (not used)''))"
proof (intro conjI ballI)
  show "\<exists>pre. printed (main w) =
            pre @ digest_header # map digest_line (sorted_summary summary) @ [saved_line]"
    using assms by (rule printed_main)
  show "length (map digest_line (sorted_summary summary)) = length summary"
    by (simp add: sorted_summary_def)
  have "mset (sorted_summary summary) = mset summary" by (simp add: sorted_summary_def)
  then show "mset (map digest_line (sorted_summary summary)) = mset (map digest_line summary)"
    by (metis mset_map)
next
  fix r
  assume "r \<in> set summary"
  with assms obtain item where
    r: "snd (report_of w (used_metrics_of w) (used_labels_of w) item) = Inr r"
    by (rule in_summary)
  note f = report_of_fields(1-4)[OF r]
  show "digest_line r =
              metric r @ str '': '' @ show_int (series_count r) @ str '' series - '' @
              (if metric r \<in> set (keys (used_metrics_of w))
               then [8218, 250, 214] @ str '' USED ('' @
                    join (str '', '') (dict_get (used_metrics_of w) (metric r) []) @ str '')''
               else [8218, 249, 229] @ str '' UNUSED (not used)'')"
  proof (cases "item_metric item \<in> set (keys (used_metrics_of w))")
    case True
    then have "dict_get (used_metrics_of w) (item_metric item) [] \<noteq> []"
      by (rule used_in_nonempty)
    with True show ?thesis
      unfolding digest_line_def f by (simp add: str_def)
  next
    case False
    then have "dict_get (used_metrics_of w) (item_metric item) [] = []"
      by (rule unused_empty)
    with False show ?thesis
      unfolding digest_line_def f by (simp add: str_def)
  qed
qed

lemma show_nat_50: "show_nat 50 = str ''50''"
  by (simp add: show_nat.simps[of 50] show_nat.simps[of 5] str_def)

lemma show_nat_500: "show_nat 500 = str ''500''"
  by (simp add: show_nat.simps[of 500] show_nat.simps[of 50] show_nat.simps[of 5] str_def)

lemma example_digest:
  "digest_line (example_summary ! 0) =
     str ''debug_probe_total: 50 series - '' @ [8218, 249, 229] @ str '' UNUSED (not used)''"
  "digest_line (example_summary ! 1) =
     str ''http_requests_total: 500 series - '' @ [8218, 250, 214] @
     str '' USED (grafana, alertmanager)''"
  by (simp_all add: digest_line_def example_summary_def show_int_def show_nat_50 show_nat_500)
     (simp_all add: str_def)

text \<open>
As the claim C8 states it, the status of a line would be the bare word. The line of the
  unused metric of the example run has the mark of line 160 before the word, so it is not the
  line of the claimed form.
\<close>

theorem digest_line_has_a_mark:
  "saved (main example_world) = Some example_summary \<and>
   digest_line (example_summary ! 0) =
     str ''debug_probe_total: 50 series - '' @ [8218, 249, 229] @ str '' UNUSED (not used)'' \<and>
   claimed_digest_line (example_summary ! 0) =
     str ''debug_probe_total: 50 series - UNUSED (not used)'' \<and>
   digest_line (example_summary ! 0) \<noteq> claimed_digest_line (example_summary ! 0)"
proof -
  have c: "claimed_digest_line (example_summary ! 0) =
     str ''debug_probe_total: 50 series - UNUSED (not used)''"
    by (simp add: claimed_digest_line_def example_summary_def show_int_def show_nat_50)
       (simp add: str_def)
  have "digest_line (example_summary ! 0) \<noteq> claimed_digest_line (example_summary ! 0)"
    unfolding c example_digest by (simp add: str_def)
  with example_saved example_digest(1) c show ?thesis by simp
qed

theorem digest_lines_witness:
  "saved (main example_world) = Some example_summary \<and>
   set example_summary = {example_summary ! 0, example_summary ! 1} \<and>
   metric (example_summary ! 0) \<notin> set (keys (used_metrics_of example_world)) \<and>
   digest_line (example_summary ! 0) =
     str ''debug_probe_total: 50 series - '' @ [8218, 249, 229] @ str '' UNUSED (not used)'' \<and>
   metric (example_summary ! 1) \<in> set (keys (used_metrics_of example_world)) \<and>
   dict_get (used_metrics_of example_world) (metric (example_summary ! 1)) [] =
     [str ''grafana'', str ''alertmanager''] \<and>
   digest_line (example_summary ! 1) =
     str ''http_requests_total: 500 series - '' @ [8218, 250, 214] @
     str '' USED (grafana, alertmanager)'' \<and>
   map digest_line (sorted_summary example_summary) =
     [str ''http_requests_total: 500 series - '' @ [8218, 250, 214] @
        str '' USED (grafana, alertmanager)'',
      str ''debug_probe_total: 50 series - '' @ [8218, 249, 229] @ str '' UNUSED (not used)'']"
proof -
  have s: "set example_summary = {example_summary ! 0, example_summary ! 1}"
    by (simp add: example_summary_def)
  have f: "metric (example_summary ! 0) = str ''debug_probe_total''"
       "series_count (example_summary ! 0) = 50"
       "metric (example_summary ! 1) = str ''http_requests_total''"
       "series_count (example_summary ! 1) = 500"
    by (simp_all add: example_summary_def)
  have v: "str ''debug_probe_total'' \<notin> set (keys (used_metrics_of example_world))"
    "str ''http_requests_total'' \<in> set (keys (used_metrics_of example_world))"
    "dict_get (used_metrics_of example_world) (str ''http_requests_total'') [] =
       [str ''grafana'', str ''alertmanager'']"
    by (simp_all add: example_used keys_def dict_get_def str_def)
  have u: "metric (example_summary ! 0) \<notin> set (keys (used_metrics_of example_world))"
    "metric (example_summary ! 1) \<in> set (keys (used_metrics_of example_world))"
    "dict_get (used_metrics_of example_world) (metric (example_summary ! 1)) [] =
       [str ''grafana'', str ''alertmanager'']"
    unfolding f by (rule v)+
  from digest_lines[OF example_saved] s
  have d: "digest_line (example_summary ! 0) =
          metric (example_summary ! 0) @ str '': '' @ show_int (series_count (example_summary ! 0)) @
          str '' series - '' @
          (if metric (example_summary ! 0) \<in> set (keys (used_metrics_of example_world))
           then [8218, 250, 214] @ str '' USED ('' @
                join (str '', '')
                  (dict_get (used_metrics_of example_world) (metric (example_summary ! 0)) []) @
                str '')''
           else [8218, 249, 229] @ str '' UNUSED (not used)'')"
     "digest_line (example_summary ! 1) =
          metric (example_summary ! 1) @ str '': '' @ show_int (series_count (example_summary ! 1)) @
          str '' series - '' @
          (if metric (example_summary ! 1) \<in> set (keys (used_metrics_of example_world))
           then [8218, 250, 214] @ str '' USED ('' @
                join (str '', '')
                  (dict_get (used_metrics_of example_world) (metric (example_summary ! 1)) []) @
                str '')''
           else [8218, 249, 229] @ str '' UNUSED (not used)'')"
    by simp_all
  have d0: "digest_line (example_summary ! 0) =
     str ''debug_probe_total: 50 series - '' @ [8218, 249, 229] @ str '' UNUSED (not used)''"
    using d(1)[unfolded f] v(1) by (simp add: show_int_def show_nat_50 str_def)
  have d1: "digest_line (example_summary ! 1) =
     str ''http_requests_total: 500 series - '' @ [8218, 250, 214] @
     str '' USED (grafana, alertmanager)''"
    using d(2)[unfolded f] v(2,3) by (simp add: show_int_def show_nat_500 str_def)
  have o: "sorted_summary example_summary = [example_summary ! 1, example_summary ! 0]"
    by (simp add: sorted_summary_def example_summary_def)
  from example_saved s u d0 d1 o show ?thesis by simp
qed

subsection \<open>The JSON document\<close>

lemma those_round_trip: "(\<And>x. g (f x) = Some x) \<Longrightarrow> those (map g (map f xs)) = Some xs"
  by (induction xs) simp_all

lemma parse_label_usage_json: "parse_label_usage (label_usage_json e) = Some e"
  by (simp add: parse_label_usage_def label_usage_json_def field_def as_int_def as_bool_def str_def)

lemma parse_labels_json:
  "parse_labels (JObject (map (\<lambda>(label, e). (label, label_usage_json e)) ls)) = Some ls"
  unfolding parse_labels_def json.case
  by (rule those_round_trip) (simp add: case_prod_unfold parse_label_usage_json)

lemma parse_used_in_json: "parse_used_in (JArray (map JString srcs)) = Some srcs"
  unfolding parse_used_in_def json.case
  by (rule those_round_trip) (simp add: as_string_def)

lemma parse_report_json: "parse_report (report_json r) = Some r"
  by (simp add: parse_report_def report_json_def field_def as_string_def as_int_def as_bool_def
      parse_labels_json parse_used_in_json str_def)

text \<open>
Claim C7. Reading back the JSON document of a summary gives the summary again: every
  report with its \<open>metric\<close>, \<open>series_count\<close>, \<open>in_use\<close>, \<open>used_in\<close>, and the
  \<open>cardinality\<close> and \<open>in_use\<close> of every label.
\<close>

theorem summary_round_trip: "parse_summary (summary_json summary) = Some summary"
  unfolding parse_summary_def summary_json_def json.case
  by (rule those_round_trip) (rule parse_report_json)

theorem summary_round_trip_witness:
  "saved (main example_world) = Some example_summary \<and>
   parse_summary (summary_json example_summary) = Some example_summary \<and>
   summary_json example_summary =
     JArray
      [JObject [(str ''metric'', JString (str ''debug_probe_total'')),
                (str ''series_count'', JInt 50),
                (str ''in_use'', JBool False),
                (str ''used_in'', JArray []),
                (str ''labels'', JObject [])],
       JObject [(str ''metric'', JString (str ''http_requests_total'')),
                (str ''series_count'', JInt 500),
                (str ''in_use'', JBool True),
                (str ''used_in'', JArray [JString (str ''grafana''), JString (str ''alertmanager'')]),
                (str ''labels'',
                 JObject [(str ''pod'', JObject [(str ''cardinality'', JInt 2),
                                                 (str ''in_use'', JBool True)])])]]"
  using summary_round_trip[of example_summary] example_saved
  by (simp add: summary_json_def report_json_def label_usage_json_def example_summary_def)

subsection \<open>Start of get_all_dashboards.py\<close>

text \<open>
Claim C9. With \<open>GRAFANA_URL\<close> set and \<open>GRAFANA_SESSION_COOKIE\<close> not set, the guard
  raises \<open>EnvironmentError\<close> before \<open>main\<close> runs, although line 44 calls the cookie
  optional and \<open>headers\<close> is empty without it. The AlertManager cookie is optional: without
  it the alerts are requested with no headers.
\<close>

theorem grafana_cookie_required:
  "script_start \<lparr>GRAFANA_URL = Some (str ''http://localhost:3000''),
                 GRAFANA_SESSION_COOKIE = None,
                 ALERTMANAGER_URL = Some (str ''http://localhost:9093''),
                 ALERTMANAGER_SESSION_COOKIE = None\<rparr>
     = Inl (str ''GRAFANA_URL and GRAFANA_SESSION_COOKIE must be set'') \<and>
   headers \<lparr>GRAFANA_URL = Some (str ''http://localhost:3000''),
            GRAFANA_SESSION_COOKIE = None,
            ALERTMANAGER_URL = Some (str ''http://localhost:9093''),
            ALERTMANAGER_SESSION_COOKIE = None\<rparr> = [] \<and>
   alertmanager_step \<lparr>GRAFANA_URL = Some (str ''http://localhost:3000''),
                      GRAFANA_SESSION_COOKIE = None,
                      ALERTMANAGER_URL = Some (str ''http://localhost:9093''),
                      ALERTMANAGER_SESSION_COOKIE = None\<rparr> (str ''y'') = Inr (Some [])"
  by (simp add: script_start_def headers_def alertmanager_step_def alertmanager_headers_def
      truthy_def str_def)

theorem grafana_cookie_required_witness:
  "isl (script_start \<lparr>GRAFANA_URL = Some (str ''http://localhost:3000''),
                 GRAFANA_SESSION_COOKIE = None,
                 ALERTMANAGER_URL = Some (str ''http://localhost:9093''),
                 ALERTMANAGER_SESSION_COOKIE = None\<rparr>)"
  using grafana_cookie_required by simp

subsection \<open>The scans of a line\<close>

lemma left_nonstart:
  assumes "\<not> S c"
  shows "list_all (\<lambda>x. \<not> S x) (takeWhile C (rev (c # pre))) =
         list_all (\<lambda>x. \<not> S x) (takeWhile C (rev pre))"
proof (cases "\<forall>x \<in> set (rev pre). C x")
  case True
  then have 1: "takeWhile C (rev pre) = rev pre" by (simp only: takeWhile_eq_all_conv)
  from True have 2: "takeWhile C (rev pre @ [c]) = rev pre @ takeWhile C [c]"
    by (simp only: takeWhile_append2)
  show ?thesis using assms by (simp only: rev.simps 1 2) simp
next
  case False
  then obtain x where "x \<in> set (rev pre)" "\<not> C x" by blast
  then have "takeWhile C (rev pre @ [c]) = takeWhile C (rev pre)" by (rule takeWhile_append1)
  then show ?thesis by simp
qed

lemma left_skip:
  assumes "\<exists>x \<in> set p. \<not> C x"
  shows "list_all (\<lambda>x. \<not> S x) (takeWhile C (rev (q @ p))) =
         list_all (\<lambda>x. \<not> S x) (takeWhile C (rev p))"
proof -
  from assms obtain x where "x \<in> set (rev p)" "\<not> C x" by auto
  then have "takeWhile C (rev p @ rev q) = takeWhile C (rev p)" by (rule takeWhile_append1)
  then show ?thesis by simp
qed

lemma left_start:
  assumes "S c" "C c" "list_all (\<lambda>x. \<not> S x) (takeWhile C (rev (c # pre)))"
  shows "\<exists>x \<in> set pre. \<not> C x"
proof (rule ccontr)
  assume "\<not> (\<exists>x \<in> set pre. \<not> C x)"
  then have "\<forall>x \<in> set (rev (c # pre)). C x" using assms(2) by simp
  then have eq: "takeWhile C (rev (c # pre)) = rev (c # pre)"
    by (simp only: takeWhile_eq_all_conv)
  from assms(3)[unfolded eq] have "\<not> S c" by (simp add: list_all_iff)
  with assms(1) show False by simp
qed

lemma run_split:
  assumes "list_all C a" and "case b of [] \<Rightarrow> True | x # r \<Rightarrow> \<not> C x"
  shows "takeWhile C (a @ b) = a" and "dropWhile C (a @ b) = b"
  using assms by (induction a) (auto split: list.splits)

lemma dropWhile_head: "case dropWhile C xs of [] \<Rightarrow> True | x # r \<Rightarrow> \<not> C x"
  by (induction xs) auto

lemma first_break:
  assumes "\<exists>x \<in> set p. \<not> C x"
  obtains a x r where "p = a @ x # r" "list_all C a" "\<not> C x"
proof -
  from assms have "\<exists>x \<in> set p. (\<lambda>y. \<not> C y) x" by simp
  then obtain a x r where "p = a @ x # r" "\<not> C x" "\<forall>y \<in> set a. \<not> \<not> C y"
    using split_list_first_prop[of p "\<lambda>y. \<not> C y"] by blast
  then show ?thesis using that by (simp add: list_all_iff)
qed

lemma metric_start_cont: "is_metric_start c \<Longrightarrow> is_metric_cont c"
  by (auto simp: is_metric_start_def is_metric_cont_def)

lemma metric_findall_iff:
  "m \<in> set (metric_findall line) \<longleftrightarrow>
     (\<exists>pre post. line = pre @ m @ post \<and> maximal_metric_match pre m post)"
proof (induction line rule: metric_findall.induct)
  case 1
  show ?case by (simp add: maximal_metric_match_def is_metric_name_def)
next
  case (2 c cs)
  let ?tw = "takeWhile is_metric_cont cs"
  let ?rest = "dropWhile is_metric_cont cs"
  show ?case
  proof (cases "is_metric_start c")
    case start: True
    note IH = "2.IH"(1)[OF start]
    have cc: "is_metric_cont c" using start by (rule metric_start_cont)
    show ?thesis
    proof
      assume "m \<in> set (metric_findall (c # cs))"
      then consider "m = c # ?tw" | "m \<in> set (metric_findall ?rest)" using start by auto
      then show "\<exists>pre post. c # cs = pre @ m @ post \<and> maximal_metric_match pre m post"
      proof cases
        case 1
        have "c # cs = [] @ m @ ?rest" unfolding 1 by simp
        moreover have "maximal_metric_match [] m ?rest"
          unfolding 1 maximal_metric_match_def is_metric_name_def
          using start dropWhile_head[of is_metric_cont cs]
          by (simp add: list_all_iff) (meson set_takeWhileD)
        ultimately show ?thesis by blast
      next
        case 2
        with IH obtain pre post where r: "?rest = pre @ m @ post"
          and mm: "maximal_metric_match pre m post" by blast
        from mm obtain d ds where m: "m = d # ds" and d: "is_metric_start d"
          by (auto simp: maximal_metric_match_def is_metric_name_def split: list.splits)
        have br: "\<exists>x \<in> set pre. \<not> is_metric_cont x"
        proof (cases pre)
          case Nil
          with r m have "?rest = d # ds @ post" by simp
          with dropWhile_head[of is_metric_cont cs] have "\<not> is_metric_cont d" by simp
          with d show ?thesis by (simp add: metric_start_cont)
        next
          case (Cons x xs)
          with r have "?rest = x # xs @ m @ post" by simp
          with dropWhile_head[of is_metric_cont cs] have "\<not> is_metric_cont x" by simp
          with Cons show ?thesis by auto
        qed
        have "c # cs = ((c # ?tw) @ pre) @ m @ post"
          using r takeWhile_dropWhile_id[of is_metric_cont cs] by (metis append.assoc append_Cons)
        moreover have "maximal_metric_match ((c # ?tw) @ pre) m post"
          using mm unfolding maximal_metric_match_def left_skip[OF br] by simp
        ultimately show ?thesis by blast
      qed
    next
      assume "\<exists>pre post. c # cs = pre @ m @ post \<and> maximal_metric_match pre m post"
      then obtain pre post where l: "c # cs = pre @ m @ post"
        and mm: "maximal_metric_match pre m post" by blast
      from mm obtain d ds where m: "m = d # ds" and d: "is_metric_start d"
        and ds: "list_all is_metric_cont ds"
        by (auto simp: maximal_metric_match_def is_metric_name_def split: list.splits)
      from mm have post: "case post of [] \<Rightarrow> True | x # r \<Rightarrow> \<not> is_metric_cont x"
        by (simp add: maximal_metric_match_def)
      show "m \<in> set (metric_findall (c # cs))"
      proof (cases pre)
        case Nil
        with l m have dc: "d = c" and cs: "cs = ds @ post" by simp_all
        have "?tw = ds" unfolding cs using ds post by (rule run_split)
        with dc m start show ?thesis by simp
      next
        case (Cons x pre')
        with l have xc: "x = c" and cs: "cs = pre' @ m @ post" by simp_all
        from mm have "list_all (\<lambda>c. \<not> is_metric_start c) (takeWhile is_metric_cont (rev (c # pre')))"
          by (simp add: maximal_metric_match_def Cons xc)
        with start cc have "\<exists>x \<in> set pre'. \<not> is_metric_cont x" by (rule left_start)
        then obtain a y r where p: "pre' = a @ y # r" and a: "list_all is_metric_cont a"
          and y: "\<not> is_metric_cont y" by (rule first_break)
        have cs': "cs = a @ ((y # r) @ m @ post)" unfolding cs p by simp
        have rest: "?rest = (y # r) @ m @ post"
          unfolding cs' using a by (rule run_split) (simp add: y)
        have "\<exists>x \<in> set (y # r). \<not> is_metric_cont x" using y by simp
        from left_skip[OF this, of is_metric_start "c # a"]
        have "maximal_metric_match (y # r) m post"
          using mm unfolding maximal_metric_match_def Cons xc p by simp
        with rest IH have "m \<in> set (metric_findall ?rest)" by blast
        with start show ?thesis by simp
      qed
    qed
  next
    case nostart: False
    note IH = "2.IH"(2)[OF nostart]
    show ?thesis
    proof
      assume "m \<in> set (metric_findall (c # cs))"
      with nostart IH obtain pre post where "cs = pre @ m @ post" "maximal_metric_match pre m post"
        by auto
      then have "c # cs = (c # pre) @ m @ post \<and> maximal_metric_match (c # pre) m post"
        unfolding maximal_metric_match_def left_nonstart[of is_metric_start, OF nostart] by simp
      then show "\<exists>pre post. c # cs = pre @ m @ post \<and> maximal_metric_match pre m post" by blast
    next
      assume "\<exists>pre post. c # cs = pre @ m @ post \<and> maximal_metric_match pre m post"
      then obtain pre post where l: "c # cs = pre @ m @ post"
        and mm: "maximal_metric_match pre m post" by blast
      from mm obtain d ds where m: "m = d # ds" and d: "is_metric_start d"
        by (auto simp: maximal_metric_match_def is_metric_name_def split: list.splits)
      show "m \<in> set (metric_findall (c # cs))"
      proof (cases pre)
        case Nil
        with l m d nostart show ?thesis by simp
      next
        case (Cons x pre')
        with l have xc: "x = c" and cs: "cs = pre' @ m @ post" by simp_all
        have "maximal_metric_match pre' m post"
          using mm unfolding maximal_metric_match_def Cons xc left_nonstart[of is_metric_start, OF nostart] by simp
        with cs IH have "m \<in> set (metric_findall cs)" by blast
        with nostart show ?thesis by simp
      qed
    qed
  qed
qed

lemma label_start_cont: "is_label_start c \<Longrightarrow> is_label_cont c"
  by (auto simp: is_label_start_def is_label_cont_def)

lemma space_not_cont: "is_space c \<Longrightarrow> \<not> is_label_cont c"
  by (auto simp: is_space_def is_label_cont_def)

lemma eq_sign: "\<not> is_label_cont 61" "\<not> is_space 61" "\<not> is_label_start 61"
  by (simp_all add: is_space_def is_label_cont_def is_label_start_def)

lemma label_scan:
  assumes "list_all is_label_cont k'" and "list_all is_space ws"
  shows "takeWhile is_label_cont (k' @ ws @ 61 # post) = k'"
    and "dropWhile is_space (dropWhile is_label_cont (k' @ ws @ 61 # post)) = 61 # post"
proof -
  have h: "case ws @ 61 # post of [] \<Rightarrow> True | x # r \<Rightarrow> \<not> is_label_cont x"
    using assms(2) by (cases ws) (simp_all add: eq_sign space_not_cont)
  show "takeWhile is_label_cont (k' @ ws @ 61 # post) = k'"
    using assms(1) h by (rule run_split)
  have "dropWhile is_label_cont (k' @ ws @ 61 # post) = ws @ 61 # post"
    using assms(1) h by (rule run_split)
  moreover have "dropWhile is_space (ws @ 61 # post) = 61 # post"
    using assms(2) by (rule run_split) (simp add: eq_sign)
  ultimately show "dropWhile is_space (dropWhile is_label_cont (k' @ ws @ 61 # post)) = 61 # post"
    by simp
qed

lemma label_findall_start:
  assumes "is_label_start c"
  shows "label_findall (c # cs) =
     (case dropWhile is_space (dropWhile is_label_cont cs) of
        [] \<Rightarrow> label_findall cs
      | e # rest \<Rightarrow> if e = 61 then (c # takeWhile is_label_cont cs) # label_findall rest
                    else label_findall cs)"
  using assms by simp

lemma label_findall_nostart: "\<not> is_label_start c \<Longrightarrow> label_findall (c # cs) = label_findall cs"
  by simp

lemma label_name_parts:
  assumes "label_key_match pre k ws"
  obtains d ds where "k = d # ds" "is_label_start d" "list_all is_label_cont ds"
  using assms by (auto simp: label_key_match_def is_label_name_def split: list.splits)

lemma label_findall_iff:
  "k \<in> set (label_findall line) \<longleftrightarrow>
     (\<exists>pre ws post. line = pre @ k @ ws @ 61 # post \<and> label_key_match pre k ws)"
proof (induction line rule: label_findall.induct)
  case 1
  show ?case by simp
next
  case (2 c cs)
  let ?tw = "takeWhile is_label_cont cs"
  let ?r2 = "dropWhile is_space (dropWhile is_label_cont cs)"
  let ?M = "\<lambda>line. \<exists>pre ws post. line = pre @ k @ ws @ 61 # post \<and> label_key_match pre k ws"
  have shift: "?M (c # cs)" if "?M cs" and "\<not> is_label_start c" for c cs
  proof -
    from that(1) obtain pre ws post where "cs = pre @ k @ ws @ 61 # post" "label_key_match pre k ws"
      by blast
    then have "c # cs = (c # pre) @ k @ ws @ 61 # post \<and> label_key_match (c # pre) k ws"
      unfolding label_key_match_def left_nonstart[of is_label_start, OF that(2)] by simp
    then show ?thesis by blast
  qed
  show ?case
  proof (cases "is_label_start c")
    case nostart: False
    note IH = "2.IH"(4)[OF nostart]
    show ?thesis
    proof
      assume "k \<in> set (label_findall (c # cs))"
      with nostart IH have "?M cs" by simp
      then show "?M (c # cs)" using nostart by (rule shift)
    next
      assume "?M (c # cs)"
      then obtain pre ws post where l: "c # cs = pre @ k @ ws @ 61 # post"
        and mm: "label_key_match pre k ws" by blast
      from mm obtain d ds where k: "k = d # ds" and d: "is_label_start d"
        by (rule label_name_parts)
      show "k \<in> set (label_findall (c # cs))"
      proof (cases pre)
        case Nil
        with l k d nostart show ?thesis by simp
      next
        case (Cons x pre')
        with l have xc: "x = c" and cs: "cs = pre' @ k @ ws @ 61 # post" by simp_all
        have "label_key_match pre' k ws"
          using mm unfolding label_key_match_def Cons xc left_nonstart[of is_label_start, OF nostart]
          by simp
        with cs IH have "k \<in> set (label_findall cs)" by blast
        with nostart show ?thesis by simp
      qed
    qed
  next
    case start: True
    have cc: "is_label_cont c" using start by (rule label_start_cont)
    have cs_split: "cs = ?tw @ dropWhile is_label_cont cs" by simp
    show ?thesis
    proof (cases "\<exists>rest. ?r2 = 61 # rest")
      case True
      then obtain rest where r2: "?r2 = 61 # rest" by blast
      note IH = "2.IH"(2)[OF start r2 refl]
      have fa: "label_findall (c # cs) = (c # ?tw) # label_findall rest"
        unfolding label_findall_start[OF start] r2 by simp
      define ws1 where "ws1 = takeWhile is_space (dropWhile is_label_cont cs)"
      have r1: "dropWhile is_label_cont cs = ws1 @ 61 # rest"
        unfolding ws1_def
        using takeWhile_dropWhile_id[of is_space "dropWhile is_label_cont cs"] r2 by simp
      have ws1: "list_all is_space ws1"
        unfolding ws1_def by (simp add: list_all_iff) (meson set_takeWhileD)
      have tw: "list_all is_label_cont ?tw" by (simp add: list_all_iff) (meson set_takeWhileD)
      have line: "c # cs = (c # ?tw) @ ws1 @ 61 # rest"
        using cs_split r1 by (metis append_Cons)
      show ?thesis
      proof
        assume "k \<in> set (label_findall (c # cs))"
        then consider "k = c # ?tw" | "k \<in> set (label_findall rest)" unfolding fa by auto
        then show "?M (c # cs)"
        proof cases
          case 1
          have "c # cs = [] @ k @ ws1 @ 61 # rest" unfolding 1 using line by simp
          moreover have "label_key_match [] k ws1"
            unfolding 1 label_key_match_def is_label_name_def using start tw ws1 by simp
          ultimately show ?thesis by blast
        next
          case 2
          with IH obtain pre ws post where r: "rest = pre @ k @ ws @ 61 # post"
            and mm: "label_key_match pre k ws" by blast
          have br: "\<exists>x \<in> set (61 # pre). \<not> is_label_cont x" by (simp add: eq_sign)
          have "label_key_match (61 # pre) k ws"
            using mm unfolding label_key_match_def left_nonstart[of is_label_start, OF eq_sign(3)] .
          then have "label_key_match (((c # ?tw) @ ws1) @ 61 # pre) k ws"
            unfolding label_key_match_def left_skip[OF br] .
          moreover have "c # cs = (((c # ?tw) @ ws1) @ 61 # pre) @ k @ ws @ 61 # post"
            using line r by simp
          ultimately show ?thesis by blast
        qed
      next
        assume "?M (c # cs)"
        then obtain pre ws post where l: "c # cs = pre @ k @ ws @ 61 # post"
          and mm: "label_key_match pre k ws" by blast
        from mm obtain d ds where k: "k = d # ds" and d: "is_label_start d"
          and ds: "list_all is_label_cont ds" by (rule label_name_parts)
        from mm have ws: "list_all is_space ws" by (simp add: label_key_match_def)
        show "k \<in> set (label_findall (c # cs))"
        proof (cases pre)
          case Nil
          with l k have dc: "d = c" and cs: "cs = ds @ ws @ 61 # post" by simp_all
          have "?tw = ds" unfolding cs using ds ws by (rule label_scan)
          with dc k show ?thesis unfolding fa by simp
        next
          case (Cons x pre')
          with l have xc: "x = c" and cs: "cs = pre' @ k @ ws @ 61 # post" by simp_all
          from mm have "list_all (\<lambda>c. \<not> is_label_start c) (takeWhile is_label_cont (rev (c # pre')))"
            by (simp add: label_key_match_def Cons xc)
          with start cc have "\<exists>x \<in> set pre'. \<not> is_label_cont x" by (rule left_start)
          then obtain a y r where p: "pre' = a @ y # r" and a: "list_all is_label_cont a"
            and y: "\<not> is_label_cont y" by (rule first_break)
          have cs': "cs = a @ ((y # r) @ k @ ws @ 61 # post)" unfolding cs p by simp
          have "dropWhile is_label_cont cs = (y # r) @ k @ ws @ 61 # post"
            unfolding cs' using a by (rule run_split) (simp add: y)
          then have e: "(y # r) @ (k @ ws @ 61 # post) = ws1 @ (61 # rest)"
            unfolding r1 by simp
          have "\<exists>us. y # r = ws1 @ 61 # us \<and> rest = us @ k @ ws @ 61 # post"
          proof -
            from e consider us where "y # r = ws1 @ us" "us @ (k @ ws @ 61 # post) = 61 # rest"
              | us where "(y # r) @ us = ws1" "k @ ws @ 61 # post = us @ 61 # rest"
              unfolding append_eq_append_conv2 by blast
            then show ?thesis
            proof cases
              case 1
              show ?thesis
              proof (cases us)
                case Nil
                with 1(2) k have "d = 61" by simp
                with d show ?thesis by (simp add: eq_sign)
              next
                case (Cons u us')
                with 1 show ?thesis by simp
              qed
            next
              case 2
              show ?thesis
              proof (cases us)
                case Nil
                with 2(2) k have "d = 61" by simp
                with d show ?thesis by (simp add: eq_sign)
              next
                case (Cons u us')
                with 2(2) k have "u = d" by simp
                with 2(1) Cons have "d \<in> set ws1" by (metis in_set_conv_decomp append_Cons)
                with ws1 have "is_space d" by (simp add: list_all_iff)
                with d show ?thesis using space_not_cont label_start_cont by blast
              qed
            qed
          qed
          then obtain us where yr: "y # r = ws1 @ 61 # us"
            and rest: "rest = us @ k @ ws @ 61 # post" by blast
          have pre_eq: "pre = ((c # a) @ ws1) @ 61 # us" unfolding Cons xc p using yr by simp
          have br: "\<exists>x \<in> set (61 # us). \<not> is_label_cont x" by (simp add: eq_sign)
          from mm have "label_key_match (61 # us) k ws"
            unfolding label_key_match_def pre_eq left_skip[OF br] .
          then have "label_key_match us k ws"
            unfolding label_key_match_def left_nonstart[of is_label_start, OF eq_sign(3)] .
          with rest IH have "k \<in> set (label_findall rest)" by blast
          then show ?thesis unfolding fa by simp
        qed
      qed
    next
      case nomatch: False
      have fa: "label_findall (c # cs) = label_findall cs"
        unfolding label_findall_start[OF start] using nomatch by (simp split: list.splits)
      have IH: "k \<in> set (label_findall cs) \<longleftrightarrow> ?M cs"
      proof (cases ?r2)
        case Nil
        then show ?thesis by (rule "2.IH"(1)[OF start])
      next
        case (Cons e rest)
        with nomatch have "e \<noteq> 61" by simp
        with Cons show ?thesis by (rule "2.IH"(3)[OF start])
      qed
      have no_here: False if "cs = ds @ ws @ 61 # post" "list_all is_label_cont ds" "list_all is_space ws"
        for ds ws post
      proof -
        have "?r2 = 61 # post" unfolding that(1) using that(2,3) by (rule label_scan)
        with nomatch show False by blast
      qed
      show ?thesis
      proof
        assume "k \<in> set (label_findall (c # cs))"
        with fa IH obtain pre ws post where cs: "cs = pre @ k @ ws @ 61 # post"
          and mm: "label_key_match pre k ws" by auto
        from mm obtain d ds where k: "k = d # ds" and d: "is_label_start d"
          and ds: "list_all is_label_cont ds" by (rule label_name_parts)
        from mm have ws: "list_all is_space ws" by (simp add: label_key_match_def)
        have br: "\<exists>x \<in> set pre. \<not> is_label_cont x"
        proof (rule ccontr)
          assume "\<not> (\<exists>x \<in> set pre. \<not> is_label_cont x)"
          then have "list_all is_label_cont (pre @ k)"
            using ds d k by (auto simp: list_all_iff label_start_cont)
          moreover have "cs = (pre @ k) @ ws @ 61 # post" using cs by simp
          ultimately show False using ws no_here by blast
        qed
        have "label_key_match ([c] @ pre) k ws"
          using mm unfolding label_key_match_def left_skip[OF br] .
        with cs have "c # cs = (c # pre) @ k @ ws @ 61 # post \<and> label_key_match (c # pre) k ws"
          by simp
        then show "?M (c # cs)" by blast
      next
        assume "?M (c # cs)"
        then obtain pre ws post where l: "c # cs = pre @ k @ ws @ 61 # post"
          and mm: "label_key_match pre k ws" by blast
        from mm obtain d ds where k: "k = d # ds" and d: "is_label_start d"
          and ds: "list_all is_label_cont ds" by (rule label_name_parts)
        from mm have ws: "list_all is_space ws" by (simp add: label_key_match_def)
        show "k \<in> set (label_findall (c # cs))"
        proof (cases pre)
          case Nil
          with l k have "cs = ds @ ws @ 61 # post" by simp
          with ds ws no_here show ?thesis by blast
        next
          case (Cons x pre')
          with l have xc: "x = c" and cs: "cs = pre' @ k @ ws @ 61 # post" by simp_all
          from mm have lo: "list_all (\<lambda>c. \<not> is_label_start c) (takeWhile is_label_cont (rev (c # pre')))"
            by (simp add: label_key_match_def Cons xc)
          with start cc have br: "\<exists>x \<in> set pre'. \<not> is_label_cont x" by (rule left_start)
          have "label_key_match pre' k ws"
            using mm lo unfolding label_key_match_def Cons xc
            using left_skip[OF br, of is_label_start "[c]"] by simp
          with cs IH have "k \<in> set (label_findall cs)" by blast
          then show ?thesis unfolding fa .
        qed
      qed
    qed
  qed
qed

subsection \<open>What a line adds to the usage index\<close>

lemma keys_fold_dd_add:
  "set (keys (fold (\<lambda>m. dd_add m src) ms um)) = set (keys um) \<union> set ms"
  by (induction ms arbitrary: um) (auto simp: set_keys_dd_add)

lemma vals_fold_dd_add:
  "set (vals (fold (\<lambda>m. dd_add m src) ms um) k) =
     set (vals um k) \<union> (if k \<in> set ms then {src} else {})"
  by (induction ms arbitrary: um) (auto simp: vals_dd_add set_set_add)

lemma scan_line_parts:
  "scan_line source line (out, um, ul) =
     (out, fold (\<lambda>m. dd_add m source) (metric_findall line) um, ul \<union> set (label_findall line))"
  by (simp add: scan_line_def)

text \<open>
Claim C3. For every line and source tag, the metric names that \<open>scan_line\<close> records are
  exactly the matches of the metric pattern in the line, taken as tokens (longest matches),
  wherever in the line they stand and whatever stands around them. Each of them is one key of
  the index, and the source is in the set of that key once.
\<close>

theorem metric_matches_recorded:
  assumes "scan_line source line (out, um, ul) = (out', um', ul')"
      and "index_ok um"
  shows "(\<forall>m. m \<in> set (keys um') \<longleftrightarrow>
              m \<in> set (keys um) \<or>
              (\<exists>pre post. line = pre @ m @ post \<and> maximal_metric_match pre m post)) \<and>
         (\<forall>m s. s \<in> set (dict_get um' m []) \<longleftrightarrow>
              s \<in> set (dict_get um m []) \<or>
              s = source \<and> (\<exists>pre post. line = pre @ m @ post \<and> maximal_metric_match pre m post)) \<and>
         distinct (keys um') \<and>
         (\<forall>m. distinct (dict_get um' m []))"
proof -
  from assms(1) have um': "um' = fold (\<lambda>m. dd_add m source) (metric_findall line) um"
    by (simp add: scan_line_parts)
  have "index_ok (fst (snd (scan_line source line (out, um, ul))))"
    using assms(2) by (intro index_ok_scan_line) simp
  then have ok: "index_ok um'" by (simp add: assms(1))
  have d: "distinct (dict_get um' m [])" for m
    using ok vals_not_key[of m um']
    by (cases "m \<in> set (keys um')") (simp_all add: index_ok_def vals_def)
  show ?thesis
    using ok d vals_fold_dd_add[of source "metric_findall line" um]
    by (auto simp: um' keys_fold_dd_add metric_findall_iff index_ok_def vals_def)
qed

theorem metric_matches_recorded_witness:
  "scan_line (str ''grafana'') (str ''rate(up) / up'') ([], [], {}) =
     ([], [(str ''rate'', [str ''grafana'']), (str ''up'', [str ''grafana''])], {}) \<and>
   index_ok [] \<and>
   str ''rate(up) / up'' = str ''rate('' @ str ''up'' @ str '') / up'' \<and>
   maximal_metric_match (str ''rate('') (str ''up'') (str '') / up'') \<and>
   str ''up'' \<in> set (keys [(str ''rate'', [str ''grafana'']), (str ''up'', [str ''grafana''])]) \<and>
   distinct (keys [(str ''rate'', [str ''grafana'']), (str ''up'', [str ''grafana''])])"
proof -
  have s: "scan_line (str ''grafana'') (str ''rate(up) / up'') ([], [], {}) =
     ([], [(str ''rate'', [str ''grafana'']), (str ''up'', [str ''grafana''])], {})"
    by (simp add: scan_line_def str_def char_classes set_add_def)
  have i: "index_ok ([]::(pystr, pystr list) dict)" by (simp add: index_ok_def keys_def)
  have e: "str ''rate(up) / up'' = str ''rate('' @ str ''up'' @ str '') / up''" by (simp add: str_def)
  have m: "maximal_metric_match (str ''rate('') (str ''up'') (str '') / up'')"
    by (simp add: maximal_metric_match_def is_metric_name_def str_def char_classes)
  from metric_matches_recorded[OF s i] e m
  have "str ''up'' \<in> set (keys [(str ''rate'', [str ''grafana'']), (str ''up'', [str ''grafana''])])"
    "distinct (keys [(str ''rate'', [str ''grafana'']), (str ''up'', [str ''grafana''])])"
    by blast+
  with s i e m show ?thesis by simp
qed

text \<open>
Claim C4. A line adds \<open>k\<close> to the LabelUsageSet exactly when the line has an identifier
  \<open>k\<close> (a longest match of \<open>[a-zA-Z_][a-zA-Z0-9_]*\<close>: the characters of the class
  \<open>[a-zA-Z0-9_]\<close> right before it, if any, are digits) that is followed by \<open>=\<close>
  (code point 61) with nothing but white space in between. What is added is the identifier:
  it holds no \<open>=\<close>.
\<close>

theorem label_keys_added:
  assumes "scan_line source line (out, um, ul) = (out', um', ul')"
  shows "(k \<in> ul' \<longleftrightarrow>
            k \<in> ul \<or>
            (\<exists>pre ws post. line = pre @ k @ ws @ 61 # post \<and>
               is_label_name k \<and> list_all is_space ws \<and>
               list_all (\<lambda>c. \<not> is_label_start c) (takeWhile is_label_cont (rev pre)))) \<and>
         (is_label_name k \<longrightarrow> 61 \<notin> set k)"
proof
  from assms have "ul' = ul \<union> set (label_findall line)" by (simp add: scan_line_parts)
  then show "k \<in> ul' \<longleftrightarrow>
            k \<in> ul \<or>
            (\<exists>pre ws post. line = pre @ k @ ws @ 61 # post \<and>
               is_label_name k \<and> list_all is_space ws \<and>
               list_all (\<lambda>c. \<not> is_label_start c) (takeWhile is_label_cont (rev pre)))"
    by (simp add: label_findall_iff label_key_match_def)
  show "is_label_name k \<longrightarrow> 61 \<notin> set k"
    using eq_sign label_start_cont
    by (auto simp: is_label_name_def list_all_iff split: list.splits)
qed

theorem label_keys_added_witness:
  "scan_line (str ''alertmanager'') (str ''up{pod = 1, job!=2} == 0'') ([], [], {}) =
     ([], [(str ''up'', [str ''alertmanager'']), (str ''pod'', [str ''alertmanager'']),
           (str ''job'', [str ''alertmanager''])], {str ''pod''}) \<and>
   str ''up{pod = 1, job!=2} == 0'' = str ''up{'' @ str ''pod'' @ str '' '' @ 61 # str '' 1, job!=2} == 0'' \<and>
   is_label_name (str ''pod'') \<and>
   list_all is_space (str '' '') \<and>
   str ''pod'' \<in> {str ''pod''} \<and>
   str ''job'' \<notin> {str ''pod''}"
proof -
  have s: "scan_line (str ''alertmanager'') (str ''up{pod = 1, job!=2} == 0'') ([], [], {}) =
     ([], [(str ''up'', [str ''alertmanager'']), (str ''pod'', [str ''alertmanager'']),
           (str ''job'', [str ''alertmanager''])], {str ''pod''})"
    by (simp add: scan_line_def str_def char_classes set_add_def)
  have r: "str ''up{pod = 1, job!=2} == 0'' = str ''up{'' @ str ''pod'' @ str '' '' @ 61 # str '' 1, job!=2} == 0''"
    "is_label_name (str ''pod'')" "list_all is_space (str '' '')" "str ''job'' \<notin> {str ''pod''}"
    by (simp_all add: str_def is_label_name_def char_classes)
  from label_keys_added[OF s, of "str ''pod''"] have "str ''pod'' \<in> {str ''pod''}" by simp
  with s r show ?thesis by simp
qed

end
